theory Spec2Isabelle
  imports Main "HOL-Library.Sublist" "HOL-Library.Monad_Syntax"
begin

section \<open>JavaScript strings\<close>

text \<open>
  Messages are ASCII text: a \<^typ>\<open>char\<close> stands for one code unit below 128.  The case
  conversions act on the 26 letters and leave every other character alone, as
  \<^verbatim>\<open>toUpperCase\<close> and \<^verbatim>\<open>toLowerCase\<close> do on ASCII.
\<close>

definition lower_letters :: string where
  "lower_letters = ''abcdefghijklmnopqrstuvwxyz''"

definition upper_letters :: string where
  "upper_letters = ''ABCDEFGHIJKLMNOPQRSTUVWXYZ''"

definition digit_chars :: string where
  "digit_chars = ''0123456789''"

definition toUpperChar :: "char \<Rightarrow> char" where
  "toUpperChar c = (case map_of (zip lower_letters upper_letters) c of Some u \<Rightarrow> u | None \<Rightarrow> c)"

definition toLowerChar :: "char \<Rightarrow> char" where
  "toLowerChar c = (case map_of (zip upper_letters lower_letters) c of Some l \<Rightarrow> l | None \<Rightarrow> c)"

definition toUpperCase :: "string \<Rightarrow> string" where
  "toUpperCase s = map toUpperChar s"

definition toLowerCase :: "string \<Rightarrow> string" where
  "toLowerCase s = map toLowerChar s"

definition is_digit :: "char \<Rightarrow> bool" where
  "is_digit c = (c \<in> set digit_chars)"

definition is_word :: "char \<Rightarrow> bool" where
  "is_word c = (c \<in> set (lower_letters @ upper_letters @ digit_chars @ ''_''))"

text \<open>White space of \<^verbatim>\<open>\s\<close> and \<^verbatim>\<open>trim\<close> in ASCII: tab, line feed, vertical tab, form feed,
  carriage return, space.\<close>

definition is_ws :: "char \<Rightarrow> bool" where
  "is_ws c = (c \<in> set [CHR 0x09, CHR 0x0A, CHR 0x0B, CHR 0x0C, CHR 0x0D, CHR 0x20])"

definition is_line_terminator :: "char \<Rightarrow> bool" where
  "is_line_terminator c = (c \<in> set [CHR 0x0A, CHR 0x0D])"

definition trim :: "string \<Rightarrow> string" where
  "trim s = rev (dropWhile is_ws (rev (dropWhile is_ws s)))"

text \<open>\<^verbatim>\<open>s.includes(sub)\<close>: \<open>sub\<close> occurs at some position of \<open>s\<close>.\<close>

fun str_includes :: "string \<Rightarrow> string \<Rightarrow> bool" where
  "str_includes [] sub = (sub = [])"
| "str_includes (c # cs) sub = (prefix sub (c # cs) \<or> str_includes cs sub)"

definition startsWith :: "string \<Rightarrow> string \<Rightarrow> bool" where
  "startsWith s p = prefix p s"

text \<open>\<^verbatim>\<open>s.charAt(0).toUpperCase() + s.slice(1).toLowerCase()\<close>\<close>

definition capitalize :: "string \<Rightarrow> string" where
  "capitalize s = toUpperCase (take 1 s) @ toLowerCase (drop 1 s)"

text \<open>\<^verbatim>\<open>parseInt(s, 10)\<close> on a string of decimal digits (every call site passes the capture
  of \<^verbatim>\<open>\d+\<close>).  The value is exact here; a JavaScript number rounds above \<open>2^53\<close>.\<close>

definition digit_val :: "char \<Rightarrow> nat" where
  "digit_val c = (case map_of (zip digit_chars [0, 1, 2, 3, 4, 5, 6, 7, 8, 9]) c of Some d \<Rightarrow> d | None \<Rightarrow> 0)"

definition parseInt :: "string \<Rightarrow> int" where
  "parseInt s = int (foldl (\<lambda>n c. 10 * n + digit_val c) 0 s)"

section \<open>Regular expressions\<close>

text \<open>
  The patterns of the parsers are kept as data and run by a backtracking matcher with the
  priorities of ECMAScript: alternatives left to right, a greedy quantifier longest first,
  a lazy one shortest first, an iteration of \<^verbatim>\<open>*\<close> that consumes nothing is rejected.
\<close>

datatype citem = CChar char | CRange char char | CDigit | CWord | CSpace

datatype atom = Lit char | Dot | Cls "citem list" | NCls "citem list"

datatype re =
    Atom atom
  | Empty
  | Seq re re
  | Alt re re
  | Star bool re
  | Cap nat re
  | Bol
  | Eol
  | WordB

fun citem_has :: "citem \<Rightarrow> char \<Rightarrow> bool" where
  "citem_has (CChar a) c = (c = a)"
| "citem_has (CRange a b) c = ((of_char a :: nat) \<le> of_char c \<and> (of_char c :: nat) \<le> of_char b)"
| "citem_has CDigit c = is_digit c"
| "citem_has CWord c = is_word c"
| "citem_has CSpace c = is_ws c"

text \<open>With the \<^verbatim>\<open>i\<close> flag a character matches a class when some member of the class has the
  same canonical (upper-case) form, that is when its upper-case or its lower-case form is
  a member.\<close>

definition item_matches :: "bool \<Rightarrow> citem \<Rightarrow> char \<Rightarrow> bool" where
  "item_matches ic it c =
     (if ic then citem_has it (toUpperChar c) \<or> citem_has it (toLowerChar c) else citem_has it c)"

fun atom_matches :: "bool \<Rightarrow> atom \<Rightarrow> char \<Rightarrow> bool" where
  "atom_matches ic (Lit a) c = (if ic then toUpperChar a = toUpperChar c else a = c)"
| "atom_matches ic Dot c = (\<not> is_line_terminator c)"
| "atom_matches ic (Cls its) c = (\<exists>it \<in> set its. item_matches ic it c)"
| "atom_matches ic (NCls its) c = (\<not> (\<exists>it \<in> set its. item_matches ic it c))"

text \<open>A matcher state: the character before the current position (none at the start of the
  input), the input still to read, and the captures made so far, latest first.\<close>

record mstate =
  prev :: "char option"
  rest :: string
  caps :: "(nat \<times> string) list"

text \<open>Zero or more iterations of a matcher \<open>f\<close>; every end state in priority order.\<close>

function iter :: "bool \<Rightarrow> (mstate \<Rightarrow> mstate list) \<Rightarrow> mstate \<Rightarrow> mstate list" where
  "iter greedy f st =
     (let more = concat (map (iter greedy f)
                   (filter (\<lambda>st'. length (rest st') < length (rest st)) (f st)))
      in if greedy then more @ [st] else st # more)"
  by pat_completeness auto
termination
  by (relation "measure (\<lambda>(g, f, st). length (rest st))") auto

declare iter.simps [simp del]

definition prev_is_word :: "mstate \<Rightarrow> bool" where
  "prev_is_word st = (case prev st of None \<Rightarrow> False | Some c \<Rightarrow> is_word c)"

definition next_is_word :: "mstate \<Rightarrow> bool" where
  "next_is_word st = (case rest st of [] \<Rightarrow> False | c # _ \<Rightarrow> is_word c)"

text \<open>\<open>ms ic r st\<close>: every state in which a match of \<open>r\<close> begun in \<open>st\<close> can end, in the
  order in which a backtracking matcher tries them.\<close>

primrec ms :: "bool \<Rightarrow> re \<Rightarrow> mstate \<Rightarrow> mstate list" where
  "ms ic (Atom a) st =
     (case rest st of
        [] \<Rightarrow> []
      | c # cs \<Rightarrow> if atom_matches ic a c then [st\<lparr>prev := Some c, rest := cs\<rparr>] else [])"
| "ms ic Empty st = [st]"
| "ms ic (Seq r1 r2) st = concat (map (ms ic r2) (ms ic r1 st))"
| "ms ic (Alt r1 r2) st = ms ic r1 st @ ms ic r2 st"
| "ms ic (Star greedy r) st = iter greedy (ms ic r) st"
| "ms ic (Cap n r) st =
     map (\<lambda>st'. st'\<lparr>caps := (n, take (length (rest st) - length (rest st')) (rest st)) # caps st'\<rparr>)
       (ms ic r st)"
| "ms ic Bol st = (if prev st = None then [st] else [])"
| "ms ic Eol st = (if rest st = [] then [st] else [])"
| "ms ic WordB st = (if prev_is_word st \<noteq> next_is_word st then [st] else [])"

text \<open>Pattern syntax: a literal string, \<^verbatim>\<open>r+\<close>, \<^verbatim>\<open>r+?\<close>, \<^verbatim>\<open>r*\<close>, \<^verbatim>\<open>r?\<close>, \<^verbatim>\<open>\d\<close>, \<^verbatim>\<open>\w\<close>, \<^verbatim>\<open>\s\<close>.\<close>

fun lit :: "string \<Rightarrow> re" where
  "lit [] = Empty"
| "lit (c # cs) = Seq (Atom (Lit c)) (lit cs)"

fun seqs :: "re list \<Rightarrow> re" where
  "seqs [] = Empty"
| "seqs [r] = r"
| "seqs (r # rs) = Seq r (seqs rs)"

definition plus :: "re \<Rightarrow> re" where
  "plus r = Seq r (Star True r)"

definition plus_lazy :: "re \<Rightarrow> re" where
  "plus_lazy r = Seq r (Star False r)"

definition star :: "re \<Rightarrow> re" where
  "star r = Star True r"

definition opt :: "re \<Rightarrow> re" where
  "opt r = Alt r Empty"

definition digit :: re where
  "digit = Atom (Cls [CDigit])"

definition wordc :: re where
  "wordc = Atom (Cls [CWord])"

definition space :: re where
  "space = Atom (Cls [CSpace])"

text \<open>The result of \<^verbatim>\<open>exec\<close>: the text before the match, the matched text (index 0 of the
  JavaScript match array), the captures and the text after the match.\<close>

record rx_result =
  rx_pre :: string
  rx_text :: string
  rx_caps :: "(nat \<times> string) list"
  rx_post :: string

definition start_state :: "string \<Rightarrow> string \<Rightarrow> mstate" where
  "start_state pre s = \<lparr>prev = (if pre = [] then None else Some (last pre)), rest = s, caps = []\<rparr>"

definition result_of :: "string \<Rightarrow> string \<Rightarrow> mstate \<Rightarrow> rx_result" where
  "result_of pre s st =
     \<lparr>rx_pre = pre, rx_text = take (length s - length (rest st)) s, rx_caps = caps st, rx_post = rest st\<rparr>"

text \<open>The leftmost match: start positions are tried from left to right, and at one start
  position the first end state of \<^const>\<open>ms\<close> is the match.\<close>

fun search :: "bool \<Rightarrow> re \<Rightarrow> string \<Rightarrow> string \<Rightarrow> rx_result option" where
  "search ic r pre [] =
     (case ms ic r (start_state pre []) of
        st # _ \<Rightarrow> Some (result_of pre [] st)
      | [] \<Rightarrow> None)"
| "search ic r pre (c # cs) =
     (case ms ic r (start_state pre (c # cs)) of
        st # _ \<Rightarrow> Some (result_of pre (c # cs) st)
      | [] \<Rightarrow> search ic r (pre @ [c]) cs)"

text \<open>\<^verbatim>\<open>s.match(/r/i)\<close>, \<^verbatim>\<open>/r/i.test(s)\<close>, \<^verbatim>\<open>s.replace(/r/i, '')\<close> and \<^verbatim>\<open>m[k]\<close>.\<close>

definition match_i :: "string \<Rightarrow> re \<Rightarrow> rx_result option" where
  "match_i s r = search True r [] s"

definition test_i :: "re \<Rightarrow> string \<Rightarrow> bool" where
  "test_i r s = (match_i s r \<noteq> None)"

definition replace_i :: "string \<Rightarrow> re \<Rightarrow> string" where
  "replace_i s r = (case match_i s r of None \<Rightarrow> s | Some m \<Rightarrow> rx_pre m @ rx_post m)"

definition grp :: "rx_result \<Rightarrow> nat \<Rightarrow> string option" where
  "grp m k = map_of (rx_caps m) k"

section \<open>Values and update objects\<close>

text \<open>What a caller can pass where a message is expected.\<close>

datatype jsval = JUndefined | JNull | JBool bool | JNum int | JStr string | JObject

text \<open>A property of an object that the store keeps in a nullable column: not present,
  present with \<^verbatim>\<open>null\<close>, or present with a value.\<close>

datatype 'a field = Absent | Null | Val 'a

text \<open>Truthiness of a string property, \<^verbatim>\<open>a || b\<close> and \<^verbatim>\<open>a ?? b\<close>.\<close>

definition truthy :: "string option \<Rightarrow> bool" where
  "truthy a = (case a of None \<Rightarrow> False | Some s \<Rightarrow> s \<noteq> [])"

definition truthy_field :: "string field \<Rightarrow> bool" where
  "truthy_field a = (case a of Val s \<Rightarrow> s \<noteq> [] | _ \<Rightarrow> False)"

definition js_or :: "string option \<Rightarrow> string option \<Rightarrow> string option" where
  "js_or a b = (if truthy a then a else b)"

definition or_default :: "string option \<Rightarrow> string \<Rightarrow> string" where
  "or_default a d = (case a of None \<Rightarrow> d | Some s \<Rightarrow> if s = [] then d else s)"

definition or_null :: "string field \<Rightarrow> string option" where
  "or_null a = (case a of Val s \<Rightarrow> if s = [] then None else Some s | _ \<Rightarrow> None)"

definition nullish_null :: "'a field \<Rightarrow> 'a option" where
  "nullish_null a = (case a of Val s \<Rightarrow> Some s | _ \<Rightarrow> None)"

definition nullish_default :: "'a option \<Rightarrow> 'a \<Rightarrow> 'a" where
  "nullish_default a d = (case a of None \<Rightarrow> d | Some v \<Rightarrow> v)"

text \<open>A machine update object: the parsers build it, the HTTP layer passes it on, the
  service reads it.\<close>

record machine_update =
  mu_machine_id :: "string option"
  mu_name :: "string option"
  mu_status :: "string option"
  mu_output :: "int option"
  mu_error_message :: "string field"
  mu_operator :: "string field"

definition no_machine_update :: machine_update where
  "no_machine_update =
     \<lparr>mu_machine_id = None, mu_name = None, mu_status = None, mu_output = None,
      mu_error_message = Absent, mu_operator = Absent\<rparr>"

record order_update =
  ou_order_id :: "string option"
  ou_customer_name :: "string field"
  ou_stage :: "string option"
  ou_priority :: "string option"
  ou_quantity :: "int option"
  ou_materials :: "string field"
  ou_eta :: "string field"
  ou_status :: "string option"
  ou_assigned_to :: "string field"

definition no_order_update :: order_update where
  "no_order_update =
     \<lparr>ou_order_id = None, ou_customer_name = Absent, ou_stage = None, ou_priority = None,
      ou_quantity = None, ou_materials = Absent, ou_eta = Absent, ou_status = None,
      ou_assigned_to = Absent\<rparr>"

section \<open>Intent detection and the parsers\<close>

datatype intent = MACHINE_UPDATE | SAFETY_UPDATE | ORDER_UPDATE | UNKNOWN

text \<open>\<^verbatim>\<open>/^M\d+/i\<close> and \<^verbatim>\<open>/ORD\d+/i\<close>\<close>

definition re_machine_start :: re where
  "re_machine_start = seqs [Bol, lit ''M'', plus digit]"

definition re_ord_digits :: re where
  "re_ord_digits = seqs [lit ''ORD'', plus digit]"

definition detectIntent :: "jsval \<Rightarrow> intent" where
  "detectIntent message =
     (case message of
        JStr s \<Rightarrow>
          if s = [] then UNKNOWN
          else let upperMessage = toUpperCase s in
            if test_i re_machine_start (trim s) then MACHINE_UPDATE
            else if str_includes upperMessage ''SAFETY'' then SAFETY_UPDATE
            else if str_includes upperMessage ''ORDER'' \<or> test_i re_ord_digits s then ORDER_UPDATE
            else UNKNOWN
      | _ \<Rightarrow> UNKNOWN)"

text \<open>The two status normalizers have the same body.\<close>

definition normalizeMachineStatus :: "string \<Rightarrow> string" where
  "normalizeMachineStatus status =
     (let normalized = capitalize status in
      if str_includes normalized ''run'' then ''Running''
      else if str_includes normalized ''idle'' then ''Idle''
      else if str_includes normalized ''maintain'' then ''Maintenance''
      else if str_includes normalized ''error'' \<or> str_includes normalized ''down'' then ''Error''
      else normalized)"

definition normalizeStatus :: "string \<Rightarrow> string" where
  "normalizeStatus status =
     (let normalized = capitalize status in
      if str_includes normalized ''run'' then ''Running''
      else if str_includes normalized ''idle'' then ''Idle''
      else if str_includes normalized ''maintain'' then ''Maintenance''
      else if str_includes normalized ''error'' \<or> str_includes normalized ''down'' then ''Error''
      else normalized)"

definition normalizeOrderStage :: "string \<Rightarrow> string" where
  "normalizeOrderStage stage =
     (let normalized = capitalize stage in
      if str_includes normalized ''plan'' then ''Planning''
      else if str_includes normalized ''product'' then ''Production''
      else if str_includes normalized ''quality'' \<or> str_includes normalized ''qc'' then ''Quality''
      else if str_includes normalized ''pack'' then ''Packaging''
      else if str_includes normalized ''ship'' then ''Shipping''
      else if str_includes normalized ''complete'' \<or> str_includes normalized ''done'' then ''Completed''
      else normalized)"

text \<open>Pieces shared by the patterns: \<^verbatim>\<open>[=:]?\s*\<close>, \<^verbatim>\<open>.\<close>, \<^verbatim>\<open>[A-Z0-9]\<close>, and a choice of keywords.\<close>

definition sep :: re where
  "sep = Seq (opt (Atom (Cls [CChar (CHR ''=''), CChar (CHR '':'')]))) (star space)"

definition alnum :: re where
  "alnum = Atom (Cls [CRange (CHR ''A'') (CHR ''Z''), CRange (CHR ''0'') (CHR ''9'')])"

fun alts :: "string list \<Rightarrow> re" where
  "alts [] = Empty"
| "alts [w] = lit w"
| "alts (w # ws) = Alt (lit w) (alts ws)"

text \<open>\<^verbatim>\<open>/M\d+/i\<close>, \<^verbatim>\<open>/STATUS[=:]?\s*(\w+)/i\<close>, \<^verbatim>\<open>/OUTPUT[=:]?\s*(\d+)/i\<close>,
  \<^verbatim>\<open>/ERROR[=:]?\s*(.+?)(?:\s+(?:OPERATOR|STATUS|OUTPUT)|$)/i\<close>, \<^verbatim>\<open>/OPERATOR[=:]?\s*(.+?)$/i\<close>\<close>

definition re_machine_id :: re where
  "re_machine_id = seqs [lit ''M'', plus digit]"

definition re_status_word :: re where
  "re_status_word = seqs [lit ''STATUS'', sep, Cap 1 (plus wordc)]"

definition re_output :: re where
  "re_output = seqs [lit ''OUTPUT'', sep, Cap 1 (plus digit)]"

definition re_error :: re where
  "re_error = seqs [lit ''ERROR'', sep, Cap 1 (plus_lazy (Atom Dot)),
     Alt (Seq (plus space) (alts [''OPERATOR'', ''STATUS'', ''OUTPUT''])) Eol]"

definition re_operator :: re where
  "re_operator = seqs [lit ''OPERATOR'', sep, Cap 1 (plus_lazy (Atom Dot)), Eol]"

text \<open>A step of a parser body that may throw inside \<^verbatim>\<open>try\<close>: \<open>None\<close> is the exception, which
  the \<^verbatim>\<open>catch\<close> turns into the result \<^verbatim>\<open>null\<close>.  \<open>when_matched mo f\<close> runs \<open>f\<close> on the match
  if there is one; a group that took no part in the match is \<^verbatim>\<open>undefined\<close>, and calling a
  method on it throws.  (\<^verbatim>\<open>parseInt(undefined)\<close> is \<^verbatim>\<open>NaN\<close> and does not throw; the model does not
  distinguish it from the exception.  Neither arises: see the lemmas \<open>groups_filled\<close> and
  \<open>parseMachineUpdate_total\<close>, \<open>parseWhatsappMessage_total\<close>, \<open>parseOrderUpdate_total\<close>.)\<close>

definition when_matched :: "rx_result option \<Rightarrow> (rx_result \<Rightarrow> 'a option) \<Rightarrow> 'a option option" where
  "when_matched mo f = (case mo of None \<Rightarrow> Some None | Some m \<Rightarrow> map_option Some (f m))"

definition to_field :: "'a option \<Rightarrow> 'a field" where
  "to_field a = (case a of None \<Rightarrow> Absent | Some v \<Rightarrow> Val v)"

definition parseMachineUpdate :: "jsval \<Rightarrow> machine_update option" where
  "parseMachineUpdate message =
     (case message of
        JStr s \<Rightarrow>
          if s = [] then None
          else (case match_i s re_machine_id of
              None \<Rightarrow> None
            | Some machineIdMatch \<Rightarrow> do {
                status \<leftarrow> when_matched (match_i s re_status_word)
                            (\<lambda>m. map_option normalizeMachineStatus (grp m 1));
                output \<leftarrow> when_matched (match_i s re_output)
                            (\<lambda>m. map_option parseInt (grp m 1));
                error_message \<leftarrow> when_matched (match_i s re_error)
                            (\<lambda>m. map_option trim (grp m 1));
                operator \<leftarrow> when_matched (match_i s re_operator)
                            (\<lambda>m. map_option trim (grp m 1));
                Some \<lparr>mu_machine_id = Some (toUpperCase (rx_text machineIdMatch)),
                      mu_name = None, mu_status = status, mu_output = output,
                      mu_error_message = to_field error_message,
                      mu_operator = to_field operator\<rparr>
              })
      | _ \<Rightarrow> None)"

text \<open>The parser of the shop-floor module.
  \<^verbatim>\<open>/STATUS[=:]?\s*(\w+)|Status[=:]?\s*(\w+)/i\<close>, \<^verbatim>\<open>/OUTPUT[=:]?\s*(\d+)|Output[=:]?\s*(\d+)/i\<close>,
  \<^verbatim>\<open>/ERROR[=:]?\s*(.+?)(?:\s+OPERATOR|$)/i\<close>\<close>

definition re_status_word2 :: re where
  "re_status_word2 =
     Alt (seqs [lit ''STATUS'', sep, Cap 1 (plus wordc)])
         (seqs [lit ''Status'', sep, Cap 2 (plus wordc)])"

definition re_output2 :: re where
  "re_output2 =
     Alt (seqs [lit ''OUTPUT'', sep, Cap 1 (plus digit)])
         (seqs [lit ''Output'', sep, Cap 2 (plus digit)])"

definition re_error2 :: re where
  "re_error2 = seqs [lit ''ERROR'', sep, Cap 1 (plus_lazy (Atom Dot)),
     Alt (Seq (plus space) (lit ''OPERATOR'')) Eol]"

definition parseWhatsappMessage :: "jsval \<Rightarrow> machine_update option" where
  "parseWhatsappMessage message =
     (case message of
        JStr s \<Rightarrow>
          if s = [] then None
          else (case match_i s re_machine_id of
              None \<Rightarrow> None
            | Some machineIdMatch \<Rightarrow> do {
                status \<leftarrow> when_matched (match_i s re_status_word2)
                            (\<lambda>m. map_option (\<lambda>w. normalizeStatus (trim w)) (js_or (grp m 1) (grp m 2)));
                output \<leftarrow> when_matched (match_i s re_output2)
                            (\<lambda>m. map_option parseInt (js_or (grp m 1) (grp m 2)));
                error_message \<leftarrow> when_matched (match_i s re_error2)
                            (\<lambda>m. map_option trim (grp m 1));
                operator \<leftarrow> when_matched (match_i s re_operator)
                            (\<lambda>m. map_option trim (grp m 1));
                Some \<lparr>mu_machine_id = Some (toUpperCase (rx_text machineIdMatch)),
                      mu_name = None, mu_status = status, mu_output = output,
                      mu_error_message = to_field error_message,
                      mu_operator = to_field operator\<rparr>
              })
      | _ \<Rightarrow> None)"

text \<open>The order parser.
  \<^verbatim>\<open>/ORD[A-Z0-9]+|\bORDER\s+([A-Z0-9]+)/i\<close>, \<^verbatim>\<open>/^ORDER\s+/i\<close>, \<^verbatim>\<open>/STAGE[=:]?\s*(\w+)/i\<close>,
  \<^verbatim>\<open>/PRIORITY[=:]?\s*(Low|Medium|High|Urgent)/i\<close>, \<^verbatim>\<open>/QUANTITY[=:]?\s*(\d+)|QTY[=:]?\s*(\d+)/i\<close>,
  \<^verbatim>\<open>/ETA[=:]?\s*([A-Za-z0-9\-\s]+)/i\<close>,
  \<^verbatim>\<open>/MATERIALS[=:]?\s*(.+?)(?:\s+(?:STAGE|ETA|PRIORITY)|$)/i\<close>,
  \<^verbatim>\<open>/STATUS[=:]?\s*(Active|OnHold|Completed|Cancelled)/i\<close>, \<^verbatim>\<open>/ASSIGNED[=:]?\s*(.+?)$/i\<close>\<close>

definition re_order_id :: re where
  "re_order_id =
     Alt (seqs [lit ''ORD'', plus alnum])
         (seqs [WordB, lit ''ORDER'', plus space, Cap 1 (plus alnum)])"

definition re_order_prefix :: re where
  "re_order_prefix = seqs [Bol, lit ''ORDER'', plus space]"

definition re_stage :: re where
  "re_stage = seqs [lit ''STAGE'', sep, Cap 1 (plus wordc)]"

definition re_priority :: re where
  "re_priority = seqs [lit ''PRIORITY'', sep, Cap 1 (alts [''Low'', ''Medium'', ''High'', ''Urgent''])]"

definition re_quantity :: re where
  "re_quantity =
     Alt (seqs [lit ''QUANTITY'', sep, Cap 1 (plus digit)])
         (seqs [lit ''QTY'', sep, Cap 2 (plus digit)])"

definition re_eta :: re where
  "re_eta = seqs [lit ''ETA'', sep,
     Cap 1 (plus (Atom (Cls [CRange (CHR ''A'') (CHR ''Z''), CRange (CHR ''a'') (CHR ''z''),
                              CRange (CHR ''0'') (CHR ''9''), CChar (CHR ''-''), CSpace])))]"

definition re_materials :: re where
  "re_materials = seqs [lit ''MATERIALS'', sep, Cap 1 (plus_lazy (Atom Dot)),
     Alt (Seq (plus space) (alts [''STAGE'', ''ETA'', ''PRIORITY''])) Eol]"

definition re_order_status :: re where
  "re_order_status =
     seqs [lit ''STATUS'', sep, Cap 1 (alts [''Active'', ''OnHold'', ''Completed'', ''Cancelled''])]"

definition re_assigned :: re where
  "re_assigned = seqs [lit ''ASSIGNED'', sep, Cap 1 (plus_lazy (Atom Dot)), Eol]"

definition order_id_of :: "string \<Rightarrow> string" where
  "order_id_of matched =
     (let order_id = replace_i (toUpperCase matched) re_order_prefix in
      if \<not> startsWith order_id ''ORD'' then ''ORD'' @ order_id else order_id)"

definition parseOrderUpdate :: "jsval \<Rightarrow> order_update option" where
  "parseOrderUpdate message =
     (case message of
        JStr s \<Rightarrow>
          if s = [] then None
          else (case match_i s re_order_id of
              None \<Rightarrow> None
            | Some orderIdMatch \<Rightarrow> do {
                stage \<leftarrow> when_matched (match_i s re_stage)
                            (\<lambda>m. map_option normalizeOrderStage (grp m 1));
                priority \<leftarrow> when_matched (match_i s re_priority)
                            (\<lambda>m. map_option capitalize (grp m 1));
                quantity \<leftarrow> when_matched (match_i s re_quantity)
                            (\<lambda>m. map_option parseInt (js_or (grp m 1) (grp m 2)));
                eta \<leftarrow> when_matched (match_i s re_eta)
                            (\<lambda>m. map_option trim (grp m 1));
                materials \<leftarrow> when_matched (match_i s re_materials)
                            (\<lambda>m. map_option trim (grp m 1));
                status \<leftarrow> (case match_i s re_order_status of
                              Some m \<Rightarrow> map_option capitalize (grp m 1)
                            | None \<Rightarrow> Some ''Active'');
                assigned_to \<leftarrow> when_matched (match_i s re_assigned)
                            (\<lambda>m. map_option trim (grp m 1));
                Some \<lparr>ou_order_id = Some (order_id_of (rx_text orderIdMatch)),
                      ou_customer_name = Absent, ou_stage = stage, ou_priority = priority,
                      ou_quantity = quantity, ou_materials = to_field materials,
                      ou_eta = to_field eta, ou_status = Some status,
                      ou_assigned_to = to_field assigned_to\<rparr>
              })
      | _ \<Rightarrow> None)"

section \<open>The machine service\<close>

text \<open>A row of the machines table.  The surrogate \<^verbatim>\<open>id\<close> column is assigned by the store and
  never written by this code; it is left out.  The clock reading of \<^verbatim>\<open>new Date()\<close> is a
  parameter \<open>now\<close> of every operation.\<close>

record machine =
  mc_machine_id :: string
  mc_name :: string
  mc_status :: string
  mc_output :: int
  mc_last_updated :: nat
  mc_error_message :: "string option"
  mc_operator :: "string option"

datatype failure =
    Invalid_status string
  | Invalid_stage string
  | Invalid_priority string
  | Unique_constraint string
  | Key_required
  | Expected_array
  | Type_error

definition VALID_STATUSES :: "string list" where
  "VALID_STATUSES = [''Running'', ''Idle'', ''Maintenance'', ''Error'']"

definition applyStatusValidation :: "machine_update \<Rightarrow> machine_update" where
  "applyStatusValidation data =
     (let validated = data;
          validated =
            (if mu_status validated = Some ''Error'' \<and> \<not> truthy_field (mu_error_message validated)
             then validated\<lparr>mu_error_message := Val ''Machine error detected''\<rparr> else validated);
          validated =
            (if truthy (mu_status validated) \<and> mu_status validated \<noteq> Some ''Error''
                \<and> truthy_field (mu_error_message validated)
             then validated\<lparr>mu_error_message := Null\<rparr> else validated);
          validated =
            (if mu_status validated = Some ''Idle'' \<and> mu_output validated \<noteq> None
                \<and> mu_output validated \<noteq> Some 0
             then validated\<lparr>mu_output := Some 0\<rparr> else validated)
      in validated)"

text \<open>Writing an update object into a row: a property that is not present leaves the
  column alone, \<^verbatim>\<open>null\<close> empties a nullable column.\<close>

definition set_column :: "'a option \<Rightarrow> 'a \<Rightarrow> 'a" where
  "set_column a old = (case a of None \<Rightarrow> old | Some v \<Rightarrow> v)"

definition set_nullable :: "'a field \<Rightarrow> 'a option \<Rightarrow> 'a option" where
  "set_nullable a old = (case a of Absent \<Rightarrow> old | Null \<Rightarrow> None | Val v \<Rightarrow> Some v)"

definition write_machine :: "machine_update \<Rightarrow> nat \<Rightarrow> machine \<Rightarrow> machine" where
  "write_machine dataToUpdate now r =
     \<lparr>mc_machine_id = set_column (mu_machine_id dataToUpdate) (mc_machine_id r),
      mc_name = set_column (mu_name dataToUpdate) (mc_name r),
      mc_status = set_column (mu_status dataToUpdate) (mc_status r),
      mc_output = set_column (mu_output dataToUpdate) (mc_output r),
      mc_last_updated = now,
      mc_error_message = set_nullable (mu_error_message dataToUpdate) (mc_error_message r),
      mc_operator = set_nullable (mu_operator dataToUpdate) (mc_operator r)\<rparr>"

text \<open>The store's \<^verbatim>\<open>upsert\<close> on a table with a unique key column: the row with the key is
  rewritten in place, or a new row is added; a rewrite that moves the row onto the key of
  another row is refused.\<close>

definition upsert :: "('r \<Rightarrow> string) \<Rightarrow> string \<Rightarrow> ('r \<Rightarrow> 'r) \<Rightarrow> 'r \<Rightarrow> 'r list \<Rightarrow> failure + ('r \<times> 'r list)" where
  "upsert key_of k update create tbl =
     (case find (\<lambda>r. key_of r = k) tbl of
        None \<Rightarrow> Inr (create, tbl @ [create])
      | Some r \<Rightarrow>
          let r' = update r in
          if key_of r' \<noteq> k \<and> (\<exists>row \<in> set tbl. key_of row = key_of r')
          then Inl (Unique_constraint (key_of r'))
          else Inr (r', map (\<lambda>row. if key_of row = k then r' else row) tbl))"

definition updateMachine :: "nat \<Rightarrow> string \<Rightarrow> machine_update \<Rightarrow> machine list \<Rightarrow> failure + (machine \<times> machine list)" where
  "updateMachine now machineId updateData tbl =
     (if truthy (mu_status updateData) \<and> the (mu_status updateData) \<notin> set VALID_STATUSES
      then Inl (Invalid_status (the (mu_status updateData)))
      else
        let updateData = applyStatusValidation updateData in
        upsert mc_machine_id machineId (write_machine updateData now)
          \<lparr>mc_machine_id = machineId,
           mc_name = or_default (mu_name updateData) (''Machine '' @ machineId),
           mc_status = or_default (mu_status updateData) ''Idle'',
           mc_output = nullish_default (mu_output updateData) 0,
           mc_last_updated = now,
           mc_error_message = nullish_null (mu_error_message updateData),
           mc_operator = nullish_null (mu_operator updateData)\<rparr>
          tbl)"

text \<open>A batch argument is an array or something else.  An element of the array is an
  update object, \<^verbatim>\<open>null\<close> or \<^verbatim>\<open>undefined\<close> (a hole); any other primitive has no properties
  and behaves as an object without a key.  An outcome is the row written or the key and
  the reason of the failure.\<close>

datatype 'a element = Elem_null | Elem_undefined | Elem 'a

datatype 'a batch_arg = Not_array | Items "'a element list"

datatype 'r outcome = Succeeded 'r | Failed string failure

definition success :: "'r outcome \<Rightarrow> bool" where
  "success r = (case r of Succeeded _ \<Rightarrow> True | Failed _ _ \<Rightarrow> False)"

text \<open>The loop of a batch.  The key of an element is read before the inner \<^verbatim>\<open>try\<close>: on
  \<^verbatim>\<open>null\<close> or \<^verbatim>\<open>undefined\<close> the read throws, the outer \<^verbatim>\<open>catch\<close> rethrows and the call fails
  as a whole, the rows written for the earlier elements staying in the table.  So a call
  returns the failure or the outcomes, and the table it leaves.\<close>

fun machines_loop :: "nat \<Rightarrow> machine_update element list \<Rightarrow> machine list \<Rightarrow> machine outcome list
    \<Rightarrow> (failure + machine outcome list) \<times> machine list" where
  "machines_loop now [] tbl results = (Inr results, tbl)"
| "machines_loop now (Elem_null # ds) tbl results = (Inl Type_error, tbl)"
| "machines_loop now (Elem_undefined # ds) tbl results = (Inl Type_error, tbl)"
| "machines_loop now (Elem machineData # ds) tbl results =
     (if \<not> truthy (mu_machine_id machineData)
      then machines_loop now ds tbl
             (results @ [Failed (or_default (mu_machine_id machineData) ''unknown'') Key_required])
      else
        (case updateMachine now (the (mu_machine_id machineData)) machineData tbl of
           Inr (updated, tbl') \<Rightarrow> machines_loop now ds tbl' (results @ [Succeeded updated])
         | Inl e \<Rightarrow>
             machines_loop now ds tbl
               (results @ [Failed (the (mu_machine_id machineData)) e])))"

definition batchUpdateMachines :: "nat \<Rightarrow> machine_update batch_arg \<Rightarrow> machine list
    \<Rightarrow> (failure + machine outcome list) \<times> machine list" where
  "batchUpdateMachines now machinesData tbl =
     (case machinesData of
        Not_array \<Rightarrow> (Inl Expected_array, tbl)
      | Items ds \<Rightarrow> machines_loop now ds tbl [])"

section \<open>The order service\<close>

record order =
  od_order_id :: string
  od_customer_name :: "string option"
  od_stage :: string
  od_priority :: string
  od_quantity :: int
  od_materials :: "string option"
  od_eta :: "string option"
  od_status :: string
  od_assigned_to :: "string option"
  od_created_at :: nat
  od_updated_at :: nat

definition VALID_STAGES :: "string list" where
  "VALID_STAGES = [''Planning'', ''Production'', ''Quality'', ''Packaging'', ''Shipping'', ''Completed'']"

definition VALID_ORDER_STATUSES :: "string list" where
  "VALID_ORDER_STATUSES = [''Active'', ''OnHold'', ''Completed'', ''Cancelled'']"

definition VALID_PRIORITIES :: "string list" where
  "VALID_PRIORITIES = [''Low'', ''Medium'', ''High'', ''Urgent'']"

definition write_order :: "order_update \<Rightarrow> nat \<Rightarrow> order \<Rightarrow> order" where
  "write_order dataToUpdate now r =
     \<lparr>od_order_id = set_column (ou_order_id dataToUpdate) (od_order_id r),
      od_customer_name = set_nullable (ou_customer_name dataToUpdate) (od_customer_name r),
      od_stage = set_column (ou_stage dataToUpdate) (od_stage r),
      od_priority = set_column (ou_priority dataToUpdate) (od_priority r),
      od_quantity = set_column (ou_quantity dataToUpdate) (od_quantity r),
      od_materials = set_nullable (ou_materials dataToUpdate) (od_materials r),
      od_eta = set_nullable (ou_eta dataToUpdate) (od_eta r),
      od_status = set_column (ou_status dataToUpdate) (od_status r),
      od_assigned_to = set_nullable (ou_assigned_to dataToUpdate) (od_assigned_to r),
      od_created_at = od_created_at r,
      od_updated_at = now\<rparr>"

definition updateOrder :: "nat \<Rightarrow> string \<Rightarrow> order_update \<Rightarrow> order list \<Rightarrow> failure + (order \<times> order list)" where
  "updateOrder now orderId updateData tbl =
     (if truthy (ou_stage updateData) \<and> the (ou_stage updateData) \<notin> set VALID_STAGES
      then Inl (Invalid_stage (the (ou_stage updateData)))
      else if truthy (ou_status updateData) \<and> the (ou_status updateData) \<notin> set VALID_ORDER_STATUSES
      then Inl (Invalid_status (the (ou_status updateData)))
      else if truthy (ou_priority updateData) \<and> the (ou_priority updateData) \<notin> set VALID_PRIORITIES
      then Inl (Invalid_priority (the (ou_priority updateData)))
      else
        upsert od_order_id orderId (write_order updateData now)
          \<lparr>od_order_id = orderId,
           od_customer_name = or_null (ou_customer_name updateData),
           od_stage = or_default (ou_stage updateData) ''Planning'',
           od_priority = or_default (ou_priority updateData) ''Medium'',
           od_quantity = nullish_default (ou_quantity updateData) 0,
           od_materials = or_null (ou_materials updateData),
           od_eta = or_null (ou_eta updateData),
           od_status = or_default (ou_status updateData) ''Active'',
           od_assigned_to = or_null (ou_assigned_to updateData),
           od_created_at = now,
           od_updated_at = now\<rparr>
          tbl)"

fun orders_loop :: "nat \<Rightarrow> order_update element list \<Rightarrow> order list \<Rightarrow> order outcome list
    \<Rightarrow> (failure + order outcome list) \<times> order list" where
  "orders_loop now [] tbl results = (Inr results, tbl)"
| "orders_loop now (Elem_null # ds) tbl results = (Inl Type_error, tbl)"
| "orders_loop now (Elem_undefined # ds) tbl results = (Inl Type_error, tbl)"
| "orders_loop now (Elem orderData # ds) tbl results =
     (if \<not> truthy (ou_order_id orderData)
      then orders_loop now ds tbl
             (results @ [Failed (or_default (ou_order_id orderData) ''unknown'') Key_required])
      else
        (case updateOrder now (the (ou_order_id orderData)) orderData tbl of
           Inr (updated, tbl') \<Rightarrow> orders_loop now ds tbl' (results @ [Succeeded updated])
         | Inl e \<Rightarrow>
             orders_loop now ds tbl
               (results @ [Failed (the (ou_order_id orderData)) e])))"

definition batchUpdateOrders :: "nat \<Rightarrow> order_update batch_arg \<Rightarrow> order list
    \<Rightarrow> (failure + order outcome list) \<times> order list" where
  "batchUpdateOrders now ordersData tbl =
     (case ordersData of
        Not_array \<Rightarrow> (Inl Expected_array, tbl)
      | Items ds \<Rightarrow> orders_loop now ds tbl [])"

text \<open>The counts that the batch endpoints report beside the outcomes.\<close>

definition successCount :: "'r outcome list \<Rightarrow> nat" where
  "successCount results = length (filter success results)"

definition failureCount :: "'r outcome list \<Rightarrow> nat" where
  "failureCount results = length (filter (\<lambda>r. \<not> success r) results)"

section \<open>The specification's classifier and key token\<close>

text \<open>
  The classifier as the specification words it, to be compared with \<^const>\<open>detectIntent\<close>:
  the trimmed text starts with the letter M (either case) and a digit; else the text
  contains SAFETY; else it contains ORDER, or ORD and a digit; all without regard to case.
\<close>

definition starts_with_machine_code :: "string \<Rightarrow> bool" where
  "starts_with_machine_code t =
     (case t of m # d # _ \<Rightarrow> (m = CHR ''M'' \<or> m = CHR ''m'') \<and> is_digit d | _ \<Rightarrow> False)"

definition has_order_code :: "string \<Rightarrow> bool" where
  "has_order_code s = (\<exists>d \<in> set digit_chars. sublist (''ORD'' @ [d]) (toUpperCase s))"

definition spec_classify :: "jsval \<Rightarrow> intent" where
  "spec_classify v =
     (case v of
        JStr s \<Rightarrow>
          if s = [] then UNKNOWN
          else if starts_with_machine_code (trim s) then MACHINE_UPDATE
          else if sublist ''SAFETY'' (toUpperCase s) then SAFETY_UPDATE
          else if sublist ''ORDER'' (toUpperCase s) \<or> has_order_code s then ORDER_UPDATE
          else UNKNOWN
      | _ \<Rightarrow> UNKNOWN)"

text \<open>The first token of a text that is the letter M (either case) followed by digits.\<close>

fun first_machine_token :: "string \<Rightarrow> string option" where
  "first_machine_token [] = None"
| "first_machine_token (c # cs) =
     (if (c = CHR ''M'' \<or> c = CHR ''m'') \<and> (case cs of [] \<Rightarrow> False | d # _ \<Rightarrow> is_digit d)
      then Some (c # takeWhile is_digit cs)
      else first_machine_token cs)"

section \<open>Auxiliary definitions\<close>

text \<open>A pattern without a capture group.\<close>

fun cap_free :: "re \<Rightarrow> bool" where
  "cap_free (Cap n r) = False"
| "cap_free (Seq r1 r2) = (cap_free r1 \<and> cap_free r2)"
| "cap_free (Alt r1 r2) = (cap_free r1 \<and> cap_free r2)"
| "cap_free (Star g r) = cap_free r"
| "cap_free _ = True"

text \<open>The text starts with ORD (any case) and a digit.\<close>

definition ord_at :: "string \<Rightarrow> bool" where
  "ord_at t = (case t of a # b # c # d # _ \<Rightarrow>
      toUpperChar a = CHR ''O'' \<and> toUpperChar b = CHR ''R'' \<and> toUpperChar c = CHR ''D'' \<and> is_digit d
    | _ \<Rightarrow> False)"

text \<open>One turn of a batch loop, and a run of turns (used in the proofs about the loops).\<close>

definition machine_step :: "nat \<Rightarrow> machine_update \<Rightarrow> machine list \<Rightarrow> machine outcome \<times> machine list" where
  "machine_step now d tbl =
     (if \<not> truthy (mu_machine_id d) then (Failed ''unknown'' Key_required, tbl)
      else (case updateMachine now (the (mu_machine_id d)) d tbl of
              Inr (updated, tbl') \<Rightarrow> (Succeeded updated, tbl')
            | Inl e \<Rightarrow> (Failed (the (mu_machine_id d)) e, tbl)))"

definition order_step :: "nat \<Rightarrow> order_update \<Rightarrow> order list \<Rightarrow> order outcome \<times> order list" where
  "order_step now d tbl =
     (if \<not> truthy (ou_order_id d) then (Failed ''unknown'' Key_required, tbl)
      else (case updateOrder now (the (ou_order_id d)) d tbl of
              Inr (updated, tbl') \<Rightarrow> (Succeeded updated, tbl')
            | Inl e \<Rightarrow> (Failed (the (ou_order_id d)) e, tbl)))"

fun run_items :: "('d \<Rightarrow> 't \<Rightarrow> 'o \<times> 't) \<Rightarrow> 'd list \<Rightarrow> 't \<Rightarrow> 'o list \<times> 't" where
  "run_items step [] t = ([], t)"
| "run_items step (d # ds) t =
     (fst (step d t) # fst (run_items step ds (snd (step d t))),
      snd (run_items step ds (snd (step d t))))"

section \<open>Worked inputs\<close>

definition scenario_message :: string where
  "scenario_message = ''ORDER ORD1024 STAGE=Packaging ETA=Nov-18''"

definition jammed_machine :: machine where
  "jammed_machine =
     \<lparr>mc_machine_id = ''M03'', mc_name = ''Machine M03'', mc_status = ''Error'', mc_output = 0,
      mc_last_updated = 1, mc_error_message = Some ''Jam'', mc_operator = Some ''Arun''\<rparr>"

definition busy_machine :: machine where
  "busy_machine =
     \<lparr>mc_machine_id = ''M03'', mc_name = ''Machine M03'', mc_status = ''Running'', mc_output = 80,
      mc_last_updated = 1, mc_error_message = None, mc_operator = Some ''Arun''\<rparr>"

definition held_order :: order where
  "held_order =
     \<lparr>od_order_id = ''ORD1024'', od_customer_name = None, od_stage = ''Packaging'',
      od_priority = ''Medium'', od_quantity = 10, od_materials = None, od_eta = None,
      od_status = ''OnHold'', od_assigned_to = None, od_created_at = 1, od_updated_at = 1\<rparr>"

definition shipping_message :: string where
  "shipping_message = ''ORD1024 STAGE=Shipping''"

definition shipping_update :: order_update where
  "shipping_update =
     \<lparr>ou_order_id = Some ''ORD1024'', ou_customer_name = Absent, ou_stage = Some ''Shipping'',
      ou_priority = None, ou_quantity = None, ou_materials = Absent, ou_eta = Absent,
      ou_status = Some ''Active'', ou_assigned_to = Absent\<rparr>"

definition shipped_order :: order where
  "shipped_order = held_order\<lparr>od_stage := ''Shipping'', od_status := ''Active'', od_updated_at := 7\<rparr>"

definition batch3 :: "order_update list" where
  "batch3 = [no_order_update\<lparr>ou_order_id := Some ''ORD1'', ou_stage := Some ''Planning''\<rparr>,
             no_order_update\<lparr>ou_stage := Some ''Shipping''\<rparr>,
             no_order_update\<lparr>ou_order_id := Some ''ORD3'', ou_quantity := Some 5\<rparr>]"

definition new_order :: "string \<Rightarrow> int \<Rightarrow> order" where
  "new_order k q =
     \<lparr>od_order_id = k, od_customer_name = None, od_stage = ''Planning'', od_priority = ''Medium'',
      od_quantity = q, od_materials = None, od_eta = None, od_status = ''Active'',
      od_assigned_to = None, od_created_at = 7, od_updated_at = 7\<rparr>"

text \<open>An array of three elements whose second element is \<^verbatim>\<open>null\<close>, for orders and for
  machines.\<close>

definition orders_with_null :: "order_update element list" where
  "orders_with_null =
     [Elem (no_order_update\<lparr>ou_order_id := Some ''ORD1'', ou_stage := Some ''Planning''\<rparr>),
      Elem_null,
      Elem (no_order_update\<lparr>ou_order_id := Some ''ORD3'', ou_quantity := Some 5\<rparr>)]"

definition machines_with_null :: "machine_update element list" where
  "machines_with_null =
     [Elem (no_machine_update\<lparr>mu_machine_id := Some ''M01'', mu_status := Some ''Running''\<rparr>),
      Elem_null,
      Elem (no_machine_update\<lparr>mu_machine_id := Some ''M02'', mu_status := Some ''Idle''\<rparr>)]"

definition new_machine :: "string \<Rightarrow> string \<Rightarrow> machine" where
  "new_machine k st =
     \<lparr>mc_machine_id = k, mc_name = ''Machine '' @ k, mc_status = st, mc_output = 0,
      mc_last_updated = 7, mc_error_message = None, mc_operator = None\<rparr>"

definition batch3_results :: "order outcome list" where
  "batch3_results =
     [Succeeded (new_order ''ORD1'' 0), Failed ''unknown'' Key_required, Succeeded (new_order ''ORD3'' 5)]"

section \<open>Characters and the matcher\<close>

lemma toUpperChar_digit [simp]: "is_digit (toUpperChar c) = is_digit c"
  by (auto simp: toUpperChar_def is_digit_def digit_chars_def lower_letters_def upper_letters_def
      split: if_splits)

lemma toLowerChar_digit [simp]: "is_digit (toLowerChar c) = is_digit c"
  by (auto simp: toLowerChar_def is_digit_def digit_chars_def lower_letters_def upper_letters_def
      split: if_splits)

lemma toUpperChar_M: "(CHR ''M'' = toUpperChar c) = (c = CHR ''M'' \<or> c = CHR ''m'')"
  by (auto simp: toUpperChar_def lower_letters_def upper_letters_def split: if_splits)

lemma toUpperChar_lit: "toUpperChar (CHR ''M'') = CHR ''M''"
  "toUpperChar (CHR ''O'') = CHR ''O''" "toUpperChar (CHR ''R'') = CHR ''R''"
  "toUpperChar (CHR ''D'') = CHR ''D''"
  by (simp_all add: toUpperChar_def lower_letters_def upper_letters_def)

lemma digit_matches [simp]: "item_matches True CDigit c = is_digit c"
  by (simp add: item_matches_def)

lemma take_consumed: "take (length (a @ b) - length b) (a @ b) = a"
  by simp

lemma concat_singletons: "concat (map (\<lambda>x. [x]) xs) = xs"
  by (induction xs) simp_all

lemma ms_Seq_Empty [simp]: "ms ic (Seq r Empty) st = ms ic r st"
proof -
  have "ms ic Empty = (\<lambda>x. [x])" by (rule ext) simp
  then show ?thesis by (simp add: concat_singletons)
qed

lemma iter_digit:
  "iter True (ms True digit) st =
     (case rest st of
        [] \<Rightarrow> [st]
      | d # ds \<Rightarrow> if is_digit d then iter True (ms True digit) (st\<lparr>prev := Some d, rest := ds\<rparr>) @ [st]
                 else [st])"
  by (subst iter.simps) (simp add: digit_def split: list.splits)

lemma iter_digit_hd:
  "iter True (ms True digit) st \<noteq> [] \<and>
   rest (hd (iter True (ms True digit) st)) = dropWhile is_digit (rest st) \<and>
   caps (hd (iter True (ms True digit) st)) = caps st"
proof (induction "rest st" arbitrary: st)
  case Nil
  then show ?case by (subst (1 2 3) iter_digit) simp
next
  case (Cons d ds)
  have r: "rest st = d # ds" using Cons.hyps(2) by simp
  show ?case
  proof (cases "is_digit d")
    case True
    have ih: "iter True (ms True digit) (st\<lparr>prev := Some d, rest := ds\<rparr>) \<noteq> [] \<and>
      rest (hd (iter True (ms True digit) (st\<lparr>prev := Some d, rest := ds\<rparr>))) = dropWhile is_digit ds \<and>
      caps (hd (iter True (ms True digit) (st\<lparr>prev := Some d, rest := ds\<rparr>))) = caps st"
      using Cons.hyps(1) [of "st\<lparr>prev := Some d, rest := ds\<rparr>"] by simp
    show ?thesis
      by (subst (1 2 3) iter_digit) (simp add: r True ih)
  next
    case False
    then show ?thesis by (subst (1 2 3) iter_digit) (simp add: r)
  qed
qed

lemma ms_machine_id:
  "ms True re_machine_id st =
     (case rest st of
        c # d # ds \<Rightarrow>
          if (c = CHR ''M'' \<or> c = CHR ''m'') \<and> is_digit d
          then iter True (ms True digit) (st\<lparr>prev := Some d, rest := ds\<rparr>) else []
      | _ \<Rightarrow> [])"
  by (simp add: re_machine_id_def plus_def digit_def toUpperChar_lit toUpperChar_M split: list.splits)

lemma search_machine_id:
  "map_option rx_text (search True re_machine_id pre s) = first_machine_token s"
proof (induction s arbitrary: pre)
  case Nil
  then show ?case by (simp add: ms_machine_id start_state_def)
next
  case (Cons c cs)
  show ?case
  proof (cases "(c = CHR ''M'' \<or> c = CHR ''m'') \<and> (case cs of [] \<Rightarrow> False | d # _ \<Rightarrow> is_digit d)")
    case True
    then obtain d ds where cs: "cs = d # ds" and d: "is_digit d" and c: "c = CHR ''M'' \<or> c = CHR ''m''"
      by (auto split: list.splits)
    let ?st = "(start_state pre (c # d # ds))\<lparr>prev := Some d, rest := ds\<rparr>"
    have m: "ms True re_machine_id (start_state pre (c # d # ds)) = iter True (ms True digit) ?st"
      using c d by (simp add: ms_machine_id start_state_def)
    obtain x xs where it: "iter True (ms True digit) ?st = x # xs"
      using iter_digit_hd [of ?st] by (cases "iter True (ms True digit) ?st") auto
    have rx: "rest x = dropWhile is_digit ds"
      using iter_digit_hd [of ?st] it by (simp add: start_state_def)
    have tk: "take (length (c # d # ds) - length (dropWhile is_digit ds)) (c # d # ds)
            = c # d # takeWhile is_digit ds"
      using take_consumed [of "c # d # takeWhile is_digit ds" "dropWhile is_digit ds"] by simp
    show ?thesis
      unfolding cs using c d tk by (simp add: m it result_of_def rx)
  next
    case False
    then have "ms True re_machine_id (start_state pre (c # cs)) = []"
      by (auto simp: ms_machine_id start_state_def split: list.splits)
    moreover have "first_machine_token (c # cs) = first_machine_token cs"
      using False by auto
    ultimately show ?thesis using Cons.IH [of "pre @ [c]"] by (simp del: first_machine_token.simps)
  qed
qed


lemma match_machine_id:
  assumes "match_i s re_machine_id = Some m"
  shows "first_machine_token s = Some (rx_text m)"
  using search_machine_id [of "[]" s] assms by (simp add: match_i_def)

lemma parseMachineUpdate_id:
  assumes "parseMachineUpdate v = Some u"
  shows "\<exists>s tok. v = JStr s \<and> first_machine_token s = Some tok \<and> mu_machine_id u = Some (toUpperCase tok)"
proof -
  obtain s where v: "v = JStr s"
    using assms by (cases v) (simp_all add: parseMachineUpdate_def)
  obtain m where m: "match_i s re_machine_id = Some m"
    using assms v by (cases "match_i s re_machine_id") (simp_all add: parseMachineUpdate_def split: if_splits)
  have "mu_machine_id u = Some (toUpperCase (rx_text m))"
    using assms v m by (auto simp: parseMachineUpdate_def split: if_splits bind_splits)
  with v match_machine_id [OF m] show ?thesis by simp
qed

lemma parseWhatsappMessage_id:
  assumes "parseWhatsappMessage v = Some u"
  shows "\<exists>s tok. v = JStr s \<and> first_machine_token s = Some tok \<and> mu_machine_id u = Some (toUpperCase tok)"
proof -
  obtain s where v: "v = JStr s"
    using assms by (cases v) (simp_all add: parseWhatsappMessage_def)
  obtain m where m: "match_i s re_machine_id = Some m"
    using assms v by (cases "match_i s re_machine_id") (simp_all add: parseWhatsappMessage_def split: if_splits)
  have "mu_machine_id u = Some (toUpperCase (rx_text m))"
    using assms v m by (auto simp: parseWhatsappMessage_def split: if_splits bind_splits)
  with v match_machine_id [OF m] show ?thesis by simp
qed

text \<open>The matcher only ever moves forward in the input.\<close>

lemma iter_suffix:
  "(\<And>a b. b \<in> set (f a) \<Longrightarrow> suffix (rest b) (rest a)) \<Longrightarrow>
   st' \<in> set (iter g f st) \<Longrightarrow> suffix (rest st') (rest st)"
proof (induction g f st arbitrary: st' rule: iter.induct)
  case (1 greedy f st)
  from "1.prems"(2) have "st' = st \<or> (\<exists>x \<in> set (f st). length (rest x) < length (rest st) \<and> st' \<in> set (iter greedy f x))"
    by (subst (asm) iter.simps) (auto simp: Let_def split: if_splits)
  then show ?case
  proof
    assume "st' = st" then show ?thesis by simp
  next
    assume "\<exists>x \<in> set (f st). length (rest x) < length (rest st) \<and> st' \<in> set (iter greedy f x)"
    then obtain x where x: "x \<in> set (f st)" "length (rest x) < length (rest st)" "st' \<in> set (iter greedy f x)"
      by blast
    have "suffix (rest st') (rest x)"
      using "1.IH" [of x st'] x "1.prems"(1) by simp
    moreover have "suffix (rest x) (rest st)" by (rule "1.prems"(1) [OF x(1)])
    ultimately show ?thesis by (rule suffix_order.trans)
  qed
qed

lemma ms_suffix: "st' \<in> set (ms ic r st) \<Longrightarrow> suffix (rest st') (rest st)"
proof (induction r arbitrary: st st')
  case (Atom a)
  then obtain c cs where "rest st = c # cs" "rest st' = cs"
    by (cases "rest st") (auto split: if_splits)
  then show ?case by (simp add: suffix_Cons)
next
  case (Seq r1 r2)
  from Seq.prems obtain x where "x \<in> set (ms ic r1 st)" "st' \<in> set (ms ic r2 x)" by auto
  then show ?case using Seq.IH by (blast intro: suffix_order.trans)
next
  case (Star g r)
  then show ?case using iter_suffix [of "ms ic r"] by simp
next
  case (Cap n r)
  then show ?case by auto
qed (auto split: if_splits)

lemma search_parts:
  assumes "search ic r pre s = Some m"
  shows "set (rx_pre m) \<subseteq> set pre \<union> set s \<and> set (rx_post m) \<subseteq> set s"
  using assms
proof (induction s arbitrary: pre)
  case Nil
  then obtain st sts where st: "ms ic r (start_state pre []) = st # sts" and m: "m = result_of pre [] st"
    by (cases "ms ic r (start_state pre [])") auto
  have "st \<in> set (ms ic r (start_state pre []))" using st by simp
  then have "suffix (rest st) []"
    using ms_suffix [of st ic r "start_state pre []"] by (simp add: start_state_def)
  then show ?case by (simp add: m result_of_def)
next
  case (Cons c cs)
  show ?case
  proof (cases "ms ic r (start_state pre (c # cs))")
    case Nil
    then have "search ic r (pre @ [c]) cs = Some m" using Cons.prems by simp
    from Cons.IH [OF this] show ?thesis by auto
  next
    case (Cons st sts)
    then have m: "m = result_of pre (c # cs) st" using Cons.prems by simp
    have "st \<in> set (ms ic r (start_state pre (c # cs)))" using Cons by simp
    then have "suffix (rest st) (c # cs)"
      using ms_suffix [of st ic r "start_state pre (c # cs)"] by (simp add: start_state_def)
    then have "set (rest st) \<subseteq> set (c # cs)" by (rule set_mono_suffix)
    then show ?thesis by (auto simp: m result_of_def)
  qed
qed

text \<open>Upper-case text.\<close>

lemma toUpperChar_idem [simp]: "toUpperChar (toUpperChar c) = toUpperChar c"
  by (simp add: toUpperChar_def lower_letters_def upper_letters_def)

lemma toUpperCase_idem: "toUpperCase (toUpperCase s) = toUpperCase s"
  by (simp add: toUpperCase_def)

lemma upper_iff: "toUpperCase s = s \<longleftrightarrow> (\<forall>c \<in> set s. toUpperChar c = c)"
  by (simp add: toUpperCase_def map_idI) (metis map_eq_conv map_ident)

lemma order_id_of_upper: "toUpperCase (order_id_of matched) = order_id_of matched"
proof -
  let ?x = "toUpperCase matched"
  have x: "\<forall>c \<in> set ?x. toUpperChar c = c"
    using toUpperCase_idem [of matched] by (simp only: upper_iff)
  have "set (replace_i ?x re_order_prefix) \<subseteq> set ?x"
    by (auto simp: replace_i_def match_i_def split: option.splits dest!: search_parts)
  with x have r: "\<forall>c \<in> set (replace_i ?x re_order_prefix). toUpperChar c = c" by blast
  have "\<forall>c \<in> set ''ORD''. toUpperChar c = c"
    by (simp add: toUpperChar_def lower_letters_def upper_letters_def)
  with r have "\<forall>c \<in> set (order_id_of matched). toUpperChar c = c"
    by (auto simp: order_id_of_def Let_def)
  then show ?thesis by (simp only: upper_iff)
qed

lemma parseOrderUpdate_id:
  assumes "parseOrderUpdate v = Some u"
  shows "\<exists>k. ou_order_id u = Some k \<and> toUpperCase k = k"
proof -
  obtain s where v: "v = JStr s"
    using assms by (cases v) (simp_all add: parseOrderUpdate_def)
  obtain m where m: "match_i s re_order_id = Some m"
    using assms v by (cases "match_i s re_order_id") (simp_all add: parseOrderUpdate_def split: if_splits)
  have "ou_order_id u = Some (order_id_of (rx_text m))"
    using assms v m by (auto simp: parseOrderUpdate_def split: if_splits bind_splits)
  then show ?thesis by (simp add: order_id_of_upper)
qed

lemma str_includes_sublist: "str_includes s sub = sublist sub s"
  by (induction s) (simp_all add: sublist_Cons_right)

lemma iter_digit_nonempty: "iter True (ms True digit) st \<noteq> []"
  using iter_digit_hd [of st] by simp

lemma ms_Bol: "ms ic (Seq Bol r) st = (if prev st = None then ms ic r st else [])"
  by auto

lemma search_Bol: "pre \<noteq> [] \<Longrightarrow> search ic (Seq Bol r) pre s = None"
  by (induction s arbitrary: pre) (simp_all add: start_state_def)

lemma re_machine_start_eq: "re_machine_start = Seq Bol re_machine_id"
  by (simp add: re_machine_start_def re_machine_id_def)

lemma ms_machine_id_nonempty:
  "(ms True re_machine_id st \<noteq> []) = starts_with_machine_code (rest st)"
  by (auto simp: ms_machine_id starts_with_machine_code_def iter_digit_nonempty split: list.splits)

lemma test_machine_start: "test_i re_machine_start t = starts_with_machine_code t"
proof -
  have s0: "ms True (Seq Bol re_machine_id) (start_state [] t) = ms True re_machine_id (start_state [] t)"
    by (simp add: start_state_def)
  have r0: "rest (start_state [] t) = t" by (simp add: start_state_def)
  show ?thesis
  proof (cases t)
    case Nil
    then show ?thesis
      using ms_machine_id_nonempty [of "start_state [] t"] s0 r0
      by (cases "ms True re_machine_id (start_state [] [])")
         (simp_all add: test_i_def match_i_def re_machine_start_eq del: ms.simps)
  next
    case (Cons c cs)
    then show ?thesis
      using ms_machine_id_nonempty [of "start_state [] t"] s0 r0
      by (cases "ms True re_machine_id (start_state [] (c # cs))")
         (simp_all add: test_i_def match_i_def re_machine_start_eq search_Bol del: ms.simps)
  qed
qed

lemma ms_ord_digits_nonempty: "(ms True re_ord_digits st \<noteq> []) = ord_at (rest st)"
  by (auto simp: re_ord_digits_def plus_def digit_def ord_at_def toUpperChar_lit
      iter_digit_nonempty [unfolded digit_def] split: list.splits)

lemma ord_prefix: "(\<exists>d \<in> set digit_chars. prefix (''ORD'' @ [d]) (toUpperCase t)) = ord_at t"
proof (cases t)
  case Nil
  then show ?thesis by (simp add: ord_at_def toUpperCase_def)
next
  case (Cons a t1)
  show ?thesis
  proof (cases t1)
    case Nil
    then show ?thesis using Cons by (simp add: ord_at_def toUpperCase_def)
  next
    case (Cons b t2)
    note t1 = this
    show ?thesis
    proof (cases t2)
      case Nil
      then show ?thesis using \<open>t = a # t1\<close> t1 by (simp add: ord_at_def toUpperCase_def)
    next
      case (Cons c t3)
      note t2 = this
      show ?thesis
      proof (cases t3)
        case Nil
        then show ?thesis using \<open>t = a # t1\<close> t1 t2 by (simp add: ord_at_def toUpperCase_def)
      next
        case (Cons d t4)
        have "(\<exists>x \<in> set digit_chars. toUpperChar d = x) = is_digit d"
          using toUpperChar_digit [of d] by (simp add: is_digit_def del: toUpperChar_digit)
        then show ?thesis using \<open>t = a # t1\<close> t1 t2 Cons
          by (auto simp: ord_at_def toUpperCase_def)
      qed
    qed
  qed
qed

lemma has_order_code_Nil: "has_order_code [] = False"
  by (simp add: has_order_code_def toUpperCase_def)

lemma has_order_code_Cons: "has_order_code (c # cs) = (ord_at (c # cs) \<or> has_order_code cs)"
proof -
  have "has_order_code (c # cs) =
      ((\<exists>d \<in> set digit_chars. prefix (''ORD'' @ [d]) (toUpperCase (c # cs))) \<or> has_order_code cs)"
    unfolding has_order_code_def toUpperCase_def by (simp only: list.map sublist_Cons_right) blast
  then show ?thesis by (simp only: ord_prefix)
qed

lemma search_ord_digits: "(search True re_ord_digits pre s \<noteq> None) = has_order_code s"
proof (induction s arbitrary: pre)
  case Nil
  have "ms True re_ord_digits (start_state pre []) = []"
    using ms_ord_digits_nonempty [of "start_state pre []"] by (simp add: start_state_def ord_at_def)
  then show ?case by (simp add: has_order_code_Nil del: ms.simps)
next
  case (Cons c cs)
  show ?case
  proof (cases "ms True re_ord_digits (start_state pre (c # cs))")
    case Nil
    then have "\<not> ord_at (c # cs)"
      using ms_ord_digits_nonempty [of "start_state pre (c # cs)"] by (simp add: start_state_def)
    then show ?thesis using Nil Cons.IH [of "pre @ [c]"] by (simp add: has_order_code_Cons)
  next
    case (Cons st sts)
    then have "ord_at (c # cs)"
      using ms_ord_digits_nonempty [of "start_state pre (c # cs)"] by (simp add: start_state_def)
    then show ?thesis using Cons by (simp add: has_order_code_Cons)
  qed
qed

lemma test_ord_digits: "test_i re_ord_digits s = has_order_code s"
  using search_ord_digits [of "[]" s] by (simp only: test_i_def match_i_def)


section \<open>The parsers raise no exception\<close>

text \<open>Every match fills the groups that the parsers read, so no method is called on
  \<^verbatim>\<open>undefined\<close> and \<^verbatim>\<open>parseInt\<close> always gets digits: a parser returns \<^verbatim>\<open>null\<close> only for an input
  that is not a non-empty string or that has no key.\<close>

lemma iter_caps:
  "(\<And>a b. b \<in> set (f a) \<Longrightarrow> caps b = caps a) \<Longrightarrow>
   st' \<in> set (iter g f st) \<Longrightarrow> caps st' = caps st"
proof (induction g f st arbitrary: st' rule: iter.induct)
  case (1 greedy f st)
  from "1.prems"(2) have "st' = st \<or> (\<exists>x \<in> set (f st). length (rest x) < length (rest st) \<and> st' \<in> set (iter greedy f x))"
    by (subst (asm) iter.simps) (auto simp: Let_def split: if_splits)
  then show ?case
  proof
    assume "st' = st" then show ?thesis by simp
  next
    assume "\<exists>x \<in> set (f st). length (rest x) < length (rest st) \<and> st' \<in> set (iter greedy f x)"
    then obtain x where x: "x \<in> set (f st)" "length (rest x) < length (rest st)" "st' \<in> set (iter greedy f x)"
      by blast
    have "caps st' = caps x"
      using "1.IH" [of x st'] x "1.prems"(1) by simp
    moreover have "caps x = caps st" by (rule "1.prems"(1) [OF x(1)])
    ultimately show ?thesis by simp
  qed
qed

lemma ms_cap_free: "cap_free r \<Longrightarrow> st' \<in> set (ms ic r st) \<Longrightarrow> caps st' = caps st"
proof (induction r arbitrary: st st')
  case (Atom a)
  then show ?case by (cases "rest st") (auto split: if_splits)
next
  case Empty
  then show ?case by simp
next
  case (Seq r1 r2)
  from Seq.prems(2) obtain x where x: "x \<in> set (ms ic r1 st)" "st' \<in> set (ms ic r2 x)" by auto
  have c: "cap_free r1" "cap_free r2" using Seq.prems(1) by simp_all
  have "caps x = caps st" using c(1) x(1) by (rule Seq.IH(1))
  moreover have "caps st' = caps x" using c(2) x(2) by (rule Seq.IH(2))
  ultimately show ?case by simp
next
  case (Alt r1 r2)
  have c: "cap_free r1" "cap_free r2" using Alt.prems(1) by simp_all
  from Alt.prems(2) have "st' \<in> set (ms ic r1 st) \<or> st' \<in> set (ms ic r2 st)" by auto
  then show ?case using Alt.IH(1) [OF c(1)] Alt.IH(2) [OF c(2)] by blast
next
  case (Star g r)
  have c: "cap_free r" using Star.prems(1) by simp
  have "\<And>a b. b \<in> set (ms ic r a) \<Longrightarrow> caps b = caps a" using Star.IH [OF c] .
  moreover have "st' \<in> set (iter g (ms ic r) st)" using Star.prems(2) by simp
  ultimately show ?case by (rule iter_caps)
next
  case (Cap n r)
  then show ?case by simp
next
  case Bol
  then show ?case by (simp split: if_splits)
next
  case Eol
  then show ?case by (simp split: if_splits)
next
  case WordB
  then show ?case by (simp split: if_splits)
qed

lemma cap_free_lit [simp]: "cap_free (lit w)"
  by (induction w) simp_all

lemma cap_free_alts [simp]: "cap_free (alts ws)"
  by (induction ws rule: alts.induct) simp_all

lemma ms_Seq_mem:
  "st' \<in> set (ms ic (Seq a b) st) = (\<exists>mid \<in> set (ms ic a st). st' \<in> set (ms ic b mid))"
  by simp

lemma ms_Cap_mem:
  "st' \<in> set (ms ic (Cap n r) st) =
     (\<exists>e \<in> set (ms ic r st). st' = e\<lparr>caps := (n, take (length (rest st) - length (rest e)) (rest st)) # caps e\<rparr>)"
  by (simp add: image_iff)

lemma ms_Atom_shorter: "mid \<in> set (ms ic (Atom a) st) \<Longrightarrow> length (rest mid) < length (rest st)"
  by (cases "rest st") (auto split: if_splits)

lemma plus_consumes:
  assumes "st' \<in> set (ms ic (Seq (Atom a) (Star g (Atom a))) st)"
  shows "length (rest st') < length (rest st)"
proof -
  from assms obtain mid where mid: "mid \<in> set (ms ic (Atom a) st)" and st': "st' \<in> set (ms ic (Star g (Atom a)) mid)"
    unfolding ms_Seq_mem by blast
  from mid have "length (rest mid) < length (rest st)"
    by (rule ms_Atom_shorter)
  moreover have "length (rest st') \<le> length (rest mid)"
    using ms_suffix [OF st'] by (rule suffix_length_le)
  ultimately show ?thesis by simp
qed

lemma Cap_some:
  "st' \<in> set (ms ic (Cap n r) st) \<Longrightarrow> \<exists>x. map_of (caps st') n = Some x"
  unfolding ms_Cap_mem by auto

lemma Cap_plus_truthy:
  assumes "st' \<in> set (ms ic (Cap n (Seq (Atom a) (Star g (Atom a)))) st)"
  shows "truthy (map_of (caps st') n)"
proof -
  from assms obtain e where e: "e \<in> set (ms ic (Seq (Atom a) (Star g (Atom a))) st)"
    and c: "st' = e\<lparr>caps := (n, take (length (rest st) - length (rest e)) (rest st)) # caps e\<rparr>"
    unfolding ms_Cap_mem by blast
  have "length (rest e) < length (rest st)" using e by (rule plus_consumes)
  then have "take (length (rest st) - length (rest e)) (rest st) \<noteq> []" by auto
  then show ?thesis by (simp add: c truthy_def)
qed

lemma search_final:
  "search ic r pre s = Some m \<Longrightarrow>
     \<exists>st0 st. caps st0 = [] \<and> st \<in> set (ms ic r st0) \<and> rx_caps m = caps st"
proof (induction s arbitrary: pre)
  case Nil
  then obtain st sts where a: "ms ic r (start_state pre []) = st # sts" and b: "m = result_of pre [] st"
    by (cases "ms ic r (start_state pre [])") (simp_all del: ms.simps)
  have "caps (start_state pre []) = []" by (simp add: start_state_def)
  moreover have "st \<in> set (ms ic r (start_state pre []))" using a by simp
  moreover have "rx_caps m = caps st" using b by (simp add: result_of_def)
  ultimately show ?case by blast
next
  case (Cons c cs)
  show ?case
  proof (cases "ms ic r (start_state pre (c # cs))")
    case Nil
    then have "search ic r (pre @ [c]) cs = Some m" using Cons.prems by (simp del: ms.simps)
    then show ?thesis by (rule Cons.IH)
  next
    case (Cons st sts)
    then have b: "m = result_of pre (c # cs) st" using Cons.prems by (simp del: ms.simps)
    have "caps (start_state pre (c # cs)) = []" by (simp add: start_state_def)
    moreover have "st \<in> set (ms ic r (start_state pre (c # cs)))" using Cons by simp
    moreover have "rx_caps m = caps st" using b by (simp add: result_of_def)
    ultimately show ?thesis by blast
  qed
qed


lemma last_cap:
  assumes "st \<in> set (ms ic (Seq L (Seq S (Cap n X))) st0)"
  shows "\<exists>x. map_of (caps st) n = Some x"
proof -
  from assms obtain m1 m2 where "st \<in> set (ms ic (Cap n X) m2)"
    unfolding ms_Seq_mem by blast
  then show ?thesis by (rule Cap_some)
qed

lemma cap_then_tail:
  assumes "cap_free T" and "st \<in> set (ms ic (Seq L (Seq S (Seq (Cap n X) T))) st0)"
  shows "\<exists>x. map_of (caps st) n = Some x"
proof -
  from assms(2) obtain m1 m2 m3 where c: "m3 \<in> set (ms ic (Cap n X) m2)" and t: "st \<in> set (ms ic T m3)"
    unfolding ms_Seq_mem by blast
  have "caps st = caps m3" using assms(1) t by (rule ms_cap_free)
  then show ?thesis using Cap_some [OF c] by simp
qed

lemma either_cap:
  assumes "st \<in> set (ms ic (Alt (Seq L (Seq S (Cap 1 (Seq (Atom a) (Star g (Atom a))))))
                                (Seq L' (Seq S' (Cap 2 (Seq (Atom a') (Star g' (Atom a'))))))) st0)"
  shows "js_or (map_of (caps st) 1) (map_of (caps st) 2) \<noteq> None"
proof -
  from assms have "st \<in> set (ms ic (Seq L (Seq S (Cap 1 (Seq (Atom a) (Star g (Atom a)))))) st0)
      \<or> st \<in> set (ms ic (Seq L' (Seq S' (Cap 2 (Seq (Atom a') (Star g' (Atom a')))))) st0)"
    by (simp del: ms.simps(3,6) add: ms.simps(4))
  then show ?thesis
  proof
    assume "st \<in> set (ms ic (Seq L (Seq S (Cap 1 (Seq (Atom a) (Star g (Atom a)))))) st0)"
    then obtain m1 m2 where "st \<in> set (ms ic (Cap 1 (Seq (Atom a) (Star g (Atom a)))) m2)"
      unfolding ms_Seq_mem by blast
    then have "truthy (map_of (caps st) 1)" by (rule Cap_plus_truthy)
    then show ?thesis by (auto simp: js_or_def truthy_def split: option.splits)
  next
    assume "st \<in> set (ms ic (Seq L' (Seq S' (Cap 2 (Seq (Atom a') (Star g' (Atom a')))))) st0)"
    then obtain m1 m2 where "st \<in> set (ms ic (Cap 2 (Seq (Atom a') (Star g' (Atom a')))) m2)"
      unfolding ms_Seq_mem by blast
    then have "truthy (map_of (caps st) 2)" by (rule Cap_plus_truthy)
    then show ?thesis by (auto simp: js_or_def truthy_def split: option.splits)
  qed
qed

lemma groups_filled:
  assumes "match_i s r = Some m"
  shows "r \<in> {re_status_word, re_output, re_stage, re_priority, re_eta, re_order_status,
               re_error, re_error2, re_materials, re_operator, re_assigned} \<Longrightarrow> grp m 1 \<noteq> None"
    and "r \<in> {re_status_word2, re_output2, re_quantity} \<Longrightarrow> js_or (grp m 1) (grp m 2) \<noteq> None"
proof -
  from assms obtain st0 st where st: "st \<in> set (ms True r st0)" and m: "rx_caps m = caps st"
    unfolding match_i_def by (blast dest: search_final)
  {
    assume "r \<in> {re_status_word, re_output, re_stage, re_priority, re_eta, re_order_status}"
    then have "\<exists>L S X. r = Seq L (Seq S (Cap 1 X))"
      by (auto simp: re_status_word_def re_output_def re_stage_def re_priority_def re_eta_def
          re_order_status_def)
    then have "grp m 1 \<noteq> None" using st m last_cap [of st True _ _ 1 _ st0] by (auto simp: grp_def)
  }
  moreover
  {
    assume "r \<in> {re_error, re_error2, re_materials, re_operator, re_assigned}"
    then have "\<exists>L S X T. cap_free T \<and> r = Seq L (Seq S (Seq (Cap 1 X) T))"
      by (auto simp: re_error_def re_error2_def re_materials_def re_operator_def re_assigned_def
          plus_def space_def)
    then have "grp m 1 \<noteq> None" using st m cap_then_tail [of _ st True _ _ 1 _ st0] by (auto simp: grp_def)
  }
  ultimately show "r \<in> {re_status_word, re_output, re_stage, re_priority, re_eta, re_order_status,
               re_error, re_error2, re_materials, re_operator, re_assigned} \<Longrightarrow> grp m 1 \<noteq> None"
    by blast
  show "r \<in> {re_status_word2, re_output2, re_quantity} \<Longrightarrow> js_or (grp m 1) (grp m 2) \<noteq> None"
  proof -
    assume "r \<in> {re_status_word2, re_output2, re_quantity}"
    then have "\<exists>L S a g L' S' a' g'. r = Alt (Seq L (Seq S (Cap 1 (Seq (Atom a) (Star g (Atom a))))))
                                (Seq L' (Seq S' (Cap 2 (Seq (Atom a') (Star g' (Atom a'))))))"
      by (auto simp: re_status_word2_def re_output2_def re_quantity_def plus_def digit_def wordc_def)
    then show ?thesis using st m either_cap [of st True _ _ _ _ _ _ _ _ st0] by (auto simp: grp_def)
  qed
qed


lemma when_matched_total:
  assumes "\<And>m. mo = Some m \<Longrightarrow> f m \<noteq> None"
  shows "\<exists>x. when_matched mo f = Some x"
  using assms by (cases mo) (auto simp: when_matched_def)

lemma machine_token_match: "(match_i s re_machine_id \<noteq> None) = (first_machine_token s \<noteq> None)"
proof -
  have "first_machine_token s = map_option rx_text (match_i s re_machine_id)"
    by (simp add: match_i_def search_machine_id)
  then show ?thesis by simp
qed

lemma parseMachineUpdate_total:
  "(parseMachineUpdate v \<noteq> None) = (\<exists>s. v = JStr s \<and> first_machine_token s \<noteq> None)"
proof (cases v)
  case (JStr s)
  show ?thesis
  proof (cases "first_machine_token s")
    case None
    then have "match_i s re_machine_id = None" using machine_token_match [of s] by simp
    then show ?thesis using None JStr by (simp add: parseMachineUpdate_def)
  next
    case (Some tok)
    then have ne: "s \<noteq> []" by auto
    from Some obtain m where m: "match_i s re_machine_id = Some m"
      using machine_token_match [of s] by auto
    obtain a where a: "when_matched (match_i s re_status_word)
        (\<lambda>m. map_option normalizeMachineStatus (grp m 1)) = Some a"
      using when_matched_total [of "match_i s re_status_word" "\<lambda>m. map_option normalizeMachineStatus (grp m 1)"]
        groups_filled(1) [of s re_status_word] by auto
    obtain b where b: "when_matched (match_i s re_output) (\<lambda>m. map_option parseInt (grp m 1)) = Some b"
      using when_matched_total [of "match_i s re_output" "\<lambda>m. map_option parseInt (grp m 1)"]
        groups_filled(1) [of s re_output] by auto
    obtain c where c: "when_matched (match_i s re_error) (\<lambda>m. map_option trim (grp m 1)) = Some c"
      using when_matched_total [of "match_i s re_error" "\<lambda>m. map_option trim (grp m 1)"]
        groups_filled(1) [of s re_error] by auto
    obtain d where d: "when_matched (match_i s re_operator) (\<lambda>m. map_option trim (grp m 1)) = Some d"
      using when_matched_total [of "match_i s re_operator" "\<lambda>m. map_option trim (grp m 1)"]
        groups_filled(1) [of s re_operator] by auto
    show ?thesis using JStr Some ne by (simp add: parseMachineUpdate_def m a b c d del: One_nat_def)
  qed
qed (simp_all add: parseMachineUpdate_def)

lemma parseWhatsappMessage_total:
  "(parseWhatsappMessage v \<noteq> None) = (\<exists>s. v = JStr s \<and> first_machine_token s \<noteq> None)"
proof (cases v)
  case (JStr s)
  show ?thesis
  proof (cases "first_machine_token s")
    case None
    then have "match_i s re_machine_id = None" using machine_token_match [of s] by simp
    then show ?thesis using None JStr by (simp add: parseWhatsappMessage_def)
  next
    case (Some tok)
    then have ne: "s \<noteq> []" by auto
    from Some obtain m where m: "match_i s re_machine_id = Some m"
      using machine_token_match [of s] by auto
    obtain a where a: "when_matched (match_i s re_status_word2)
        (\<lambda>m. map_option (\<lambda>w. normalizeStatus (trim w)) (js_or (grp m 1) (grp m 2))) = Some a"
      using when_matched_total [of "match_i s re_status_word2"
          "\<lambda>m. map_option (\<lambda>w. normalizeStatus (trim w)) (js_or (grp m 1) (grp m 2))"]
        groups_filled(2) [of s re_status_word2] by auto
    obtain b where b: "when_matched (match_i s re_output2)
        (\<lambda>m. map_option parseInt (js_or (grp m 1) (grp m 2))) = Some b"
      using when_matched_total [of "match_i s re_output2" "\<lambda>m. map_option parseInt (js_or (grp m 1) (grp m 2))"]
        groups_filled(2) [of s re_output2] by auto
    obtain c where c: "when_matched (match_i s re_error2) (\<lambda>m. map_option trim (grp m 1)) = Some c"
      using when_matched_total [of "match_i s re_error2" "\<lambda>m. map_option trim (grp m 1)"]
        groups_filled(1) [of s re_error2] by auto
    obtain d where d: "when_matched (match_i s re_operator) (\<lambda>m. map_option trim (grp m 1)) = Some d"
      using when_matched_total [of "match_i s re_operator" "\<lambda>m. map_option trim (grp m 1)"]
        groups_filled(1) [of s re_operator] by auto
    show ?thesis using JStr Some ne by (simp add: parseWhatsappMessage_def m a b c d del: One_nat_def)
  qed
qed (simp_all add: parseWhatsappMessage_def)

lemma parseOrderUpdate_total:
  "(parseOrderUpdate v \<noteq> None) = (\<exists>s. v = JStr s \<and> s \<noteq> [] \<and> match_i s re_order_id \<noteq> None)"
proof (cases v)
  case (JStr s)
  show ?thesis
  proof (cases "s \<noteq> [] \<and> match_i s re_order_id \<noteq> None")
    case False
    then show ?thesis using JStr by (auto simp: parseOrderUpdate_def)
  next
    case True
    then obtain m where ne: "s \<noteq> []" and m: "match_i s re_order_id = Some m" by auto
    obtain a where a: "when_matched (match_i s re_stage)
        (\<lambda>m. map_option normalizeOrderStage (grp m 1)) = Some a"
      using when_matched_total [of "match_i s re_stage" "\<lambda>m. map_option normalizeOrderStage (grp m 1)"]
        groups_filled(1) [of s re_stage] by auto
    obtain b where b: "when_matched (match_i s re_priority) (\<lambda>m. map_option capitalize (grp m 1)) = Some b"
      using when_matched_total [of "match_i s re_priority" "\<lambda>m. map_option capitalize (grp m 1)"]
        groups_filled(1) [of s re_priority] by auto
    obtain c where c: "when_matched (match_i s re_quantity)
        (\<lambda>m. map_option parseInt (js_or (grp m 1) (grp m 2))) = Some c"
      using when_matched_total [of "match_i s re_quantity" "\<lambda>m. map_option parseInt (js_or (grp m 1) (grp m 2))"]
        groups_filled(2) [of s re_quantity] by auto
    obtain d where d: "when_matched (match_i s re_eta) (\<lambda>m. map_option trim (grp m 1)) = Some d"
      using when_matched_total [of "match_i s re_eta" "\<lambda>m. map_option trim (grp m 1)"]
        groups_filled(1) [of s re_eta] by auto
    obtain e where e: "when_matched (match_i s re_materials) (\<lambda>m. map_option trim (grp m 1)) = Some e"
      using when_matched_total [of "match_i s re_materials" "\<lambda>m. map_option trim (grp m 1)"]
        groups_filled(1) [of s re_materials] by auto
    obtain f where f: "(case match_i s re_order_status of
                              Some m \<Rightarrow> map_option capitalize (grp m 1)
                            | None \<Rightarrow> Some ''Active'') = Some f"
      using groups_filled(1) [of s re_order_status] by (cases "match_i s re_order_status") auto
    obtain g where g: "when_matched (match_i s re_assigned) (\<lambda>m. map_option trim (grp m 1)) = Some g"
      using when_matched_total [of "match_i s re_assigned" "\<lambda>m. map_option trim (grp m 1)"]
        groups_filled(1) [of s re_assigned] by auto
    show ?thesis using JStr ne by (simp add: parseOrderUpdate_def m a b c d e f g del: One_nat_def)
  qed
qed (simp_all add: parseOrderUpdate_def)

section \<open>The batch loops\<close>

lemma or_default_unknown: "\<not> truthy a \<Longrightarrow> or_default a ''unknown'' = ''unknown''"
  by (auto simp: truthy_def or_default_def split: option.splits)

lemma machines_loop_run:
  "machines_loop now (map Elem ds) tbl acc =
     (Inr (acc @ fst (run_items (machine_step now) ds tbl)), snd (run_items (machine_step now) ds tbl))"
proof (induction ds arbitrary: tbl acc)
  case Nil
  then show ?case by simp
next
  case (Cons d ds)
  show ?case
  proof (cases "truthy (mu_machine_id d)")
    case False
    then show ?thesis
      by (simp add: Cons.IH machine_step_def or_default_unknown split: prod.splits)
  next
    case True
    then show ?thesis
      by (cases "updateMachine now (the (mu_machine_id d)) d tbl")
         (auto simp: Cons.IH machine_step_def split: prod.splits)
  qed
qed

lemma orders_loop_run:
  "orders_loop now (map Elem ds) tbl acc =
     (Inr (acc @ fst (run_items (order_step now) ds tbl)), snd (run_items (order_step now) ds tbl))"
proof (induction ds arbitrary: tbl acc)
  case Nil
  then show ?case by simp
next
  case (Cons d ds)
  show ?case
  proof (cases "truthy (ou_order_id d)")
    case False
    then show ?thesis
      by (simp add: Cons.IH order_step_def or_default_unknown split: prod.splits)
  next
    case True
    then show ?thesis
      by (cases "updateOrder now (the (ou_order_id d)) d tbl")
         (auto simp: Cons.IH order_step_def split: prod.splits)
  qed
qed

text \<open>An array whose first element that is not an object stands after the objects \<open>ds\<close>:
  the call fails, and the table is the one the objects \<open>ds\<close> left.\<close>

lemma machines_loop_nullish:
  assumes "e = Elem_null \<or> e = Elem_undefined"
  shows "machines_loop now (map Elem ds @ e # es) tbl acc =
     (Inl Type_error, snd (run_items (machine_step now) ds tbl))"
proof (induction ds arbitrary: tbl acc)
  case Nil
  then show ?case using assms by auto
next
  case (Cons d ds)
  show ?case
  proof (cases "truthy (mu_machine_id d)")
    case False
    then show ?thesis
      by (simp add: Cons.IH machine_step_def split: prod.splits)
  next
    case True
    then show ?thesis
      by (cases "updateMachine now (the (mu_machine_id d)) d tbl")
         (auto simp: Cons.IH machine_step_def split: prod.splits)
  qed
qed

lemma orders_loop_nullish:
  assumes "e = Elem_null \<or> e = Elem_undefined"
  shows "orders_loop now (map Elem ds @ e # es) tbl acc =
     (Inl Type_error, snd (run_items (order_step now) ds tbl))"
proof (induction ds arbitrary: tbl acc)
  case Nil
  then show ?case using assms by auto
next
  case (Cons d ds)
  show ?case
  proof (cases "truthy (ou_order_id d)")
    case False
    then show ?thesis
      by (simp add: Cons.IH order_step_def split: prod.splits)
  next
    case True
    then show ?thesis
      by (cases "updateOrder now (the (ou_order_id d)) d tbl")
         (auto simp: Cons.IH order_step_def split: prod.splits)
  qed
qed

lemma run_items_length: "length (fst (run_items step ds t)) = length ds"
  by (induction ds arbitrary: t) simp_all

lemma run_items_append:
  "run_items step (xs @ ys) t =
     (fst (run_items step xs t) @ fst (run_items step ys (snd (run_items step xs t))),
      snd (run_items step ys (snd (run_items step xs t))))"
  by (induction xs arbitrary: t) simp_all

lemma run_items_nth:
  assumes "i < length ds"
  shows "fst (run_items step ds t) ! i = fst (step (ds ! i) (snd (run_items step (take i ds) t)))"
    and "snd (run_items step (take (Suc i) ds) t) = snd (step (ds ! i) (snd (run_items step (take i ds) t)))"
proof -
  have ds: "ds = take i ds @ (ds ! i) # drop (Suc i) ds"
    using assms by (simp add: id_take_nth_drop)
  have len: "length (fst (run_items step (take i ds) t)) = i"
    using assms by (simp add: run_items_length)
  have "fst (run_items step ds t) ! i =
          fst (run_items step (take i ds @ (ds ! i) # drop (Suc i) ds) t) ! i"
    using ds by simp
  also have "\<dots> = fst (step (ds ! i) (snd (run_items step (take i ds) t)))"
    by (simp add: run_items_append nth_append len split: prod.splits)
  finally show "fst (run_items step ds t) ! i = fst (step (ds ! i) (snd (run_items step (take i ds) t)))" .
  have "take (Suc i) ds = take i ds @ [ds ! i]"
    using assms by (simp add: take_Suc_conv_app_nth)
  then show "snd (run_items step (take (Suc i) ds) t) = snd (step (ds ! i) (snd (run_items step (take i ds) t)))"
    by (simp add: run_items_append split: prod.splits)
qed

lemma counts_total: "successCount rs + failureCount rs = length rs"
  by (simp add: successCount_def failureCount_def sum_length_filter_compl)

section \<open>Order extraction on the scenario message\<close>

lemma parseOrderUpdate_scenario_value:
  "parseOrderUpdate (JStr scenario_message) =
     Some \<lparr>ou_order_id = Some ''ORDER'', ou_customer_name = Absent, ou_stage = Some ''Packaging'',
           ou_priority = None, ou_quantity = None, ou_materials = Absent, ou_eta = Val ''Nov-18'',
           ou_status = Some ''Active'', ou_assigned_to = Absent\<rparr>"
  by code_simp

text \<open>
  C1 as stated does not hold: on \<^verbatim>\<open>"ORDER ORD1024 STAGE=Packaging ETA=Nov-18"\<close> the parser
  does not return the object with order_id ORD1024, stage Packaging, eta Nov-18 and nothing
  else.
\<close>

theorem parseOrderUpdate_scenario_counterexample:
  "parseOrderUpdate (JStr scenario_message) \<noteq>
     Some \<lparr>ou_order_id = Some ''ORD1024'', ou_customer_name = Absent, ou_stage = Some ''Packaging'',
           ou_priority = None, ou_quantity = None, ou_materials = Absent, ou_eta = Val ''Nov-18'',
           ou_status = None, ou_assigned_to = Absent\<rparr>"
  by (simp add: parseOrderUpdate_scenario_value)

text \<open>
  C1, amended: on \<^verbatim>\<open>"ORDER ORD1024 STAGE=Packaging ETA=Nov-18"\<close> the parser returns an object
  with an order_id, stage Packaging, eta Nov-18 and status Active (the default that the
  parser fills in when the message names no status); priority, quantity, materials,
  customer_name and assigned_to are not set.
\<close>

theorem parseOrderUpdate_scenario:
  "\<exists>order_id. parseOrderUpdate (JStr scenario_message) =
     Some \<lparr>ou_order_id = Some order_id, ou_customer_name = Absent, ou_stage = Some ''Packaging'',
           ou_priority = None, ou_quantity = None, ou_materials = Absent, ou_eta = Val ''Nov-18'',
           ou_status = Some ''Active'', ou_assigned_to = Absent\<rparr>"
  by (simp add: parseOrderUpdate_scenario_value)

section \<open>The status normalizer\<close>

text \<open>
  C2 says that a word containing "down" is mapped to Error, whatever its case.  Both
  normalizers turn the word \<^verbatim>\<open>down\<close> into \<^verbatim>\<open>Down\<close>: the first letter is put in upper case
  before the lower-case stems are looked for, so a stem at the start of the word is never
  found.
\<close>

theorem normalizeStatus_down:
  "normalizeStatus ''down'' = ''Down'' \<and> normalizeMachineStatus ''down'' = ''Down''"
  by code_simp

section \<open>Status rules on an existing machine\<close>

text \<open>
  C3 says that a machine whose status after an update is not Error carries no error
  description.  Updating the machine M03, in Error with the description \<^verbatim>\<open>Jam\<close>, with the
  object \<^verbatim>\<open>{status: "Running"}\<close> gives a Running machine that still carries \<^verbatim>\<open>Jam\<close>.
\<close>

theorem updateMachine_keeps_error_message:
  "updateMachine 7 ''M03'' (no_machine_update\<lparr>mu_status := Some ''Running''\<rparr>) [jammed_machine] =
     Inr (jammed_machine\<lparr>mc_status := ''Running'', mc_last_updated := 7\<rparr>,
          [jammed_machine\<lparr>mc_status := ''Running'', mc_last_updated := 7\<rparr>])
   \<and> mc_error_message (jammed_machine\<lparr>mc_status := ''Running'', mc_last_updated := 7\<rparr>) = Some ''Jam''"
  by code_simp

text \<open>
  C4 says that a machine whose status after an update is Idle has output 0.  Updating the
  machine M03, Running with output 80, with the object \<^verbatim>\<open>{status: "Idle"}\<close> gives an Idle
  machine with output 80.
\<close>

theorem updateMachine_idle_keeps_output:
  "updateMachine 7 ''M03'' (no_machine_update\<lparr>mu_status := Some ''Idle''\<rparr>) [busy_machine] =
     Inr (busy_machine\<lparr>mc_status := ''Idle'', mc_last_updated := 7\<rparr>,
          [busy_machine\<lparr>mc_status := ''Idle'', mc_last_updated := 7\<rparr>])
   \<and> mc_output (busy_machine\<lparr>mc_status := ''Idle'', mc_last_updated := 7\<rparr>) = 80"
  by code_simp

section \<open>The upsert is a merge\<close>

lemma find_key: "find (\<lambda>r. key_of r = k) tbl = Some r \<Longrightarrow> key_of r = k"
  by (auto simp: find_Some_iff)

lemma upsert_result:
  assumes "upsert key_of k update create tbl = Inr (r, tbl')"
  shows "(\<exists>old. find (\<lambda>row. key_of row = k) tbl = Some old \<and> r = update old) \<or>
         (find (\<lambda>row. key_of row = k) tbl = None \<and> r = create)"
  using assms by (auto simp: upsert_def Let_def split: option.splits if_splits)

text \<open>
  C5: for every stored machine with output 80 and operator Arun, the update
  \<^verbatim>\<open>{status: "Running"}\<close> succeeds and the resulting row is the stored row with only the status
  (now Running) and the last-updated time (now the clock reading) replaced; output and
  operator are as before, and every other row of the table is untouched.
\<close>

theorem updateMachine_merge:
  assumes "find (\<lambda>row. mc_machine_id row = machineId) tbl = Some r"
    and "mc_output r = 80" and "mc_operator r = Some ''Arun''"
  shows "updateMachine now machineId (no_machine_update\<lparr>mu_status := Some ''Running''\<rparr>) tbl =
           Inr (r\<lparr>mc_status := ''Running'', mc_last_updated := now\<rparr>,
                map (\<lambda>row. if mc_machine_id row = machineId
                           then r\<lparr>mc_status := ''Running'', mc_last_updated := now\<rparr> else row) tbl)
         \<and> mc_output (r\<lparr>mc_status := ''Running'', mc_last_updated := now\<rparr>) = 80
         \<and> mc_operator (r\<lparr>mc_status := ''Running'', mc_last_updated := now\<rparr>) = Some ''Arun''"
proof -
  have k: "mc_machine_id r = machineId"
    using assms(1) by (rule find_key)
  have v: "applyStatusValidation (no_machine_update\<lparr>mu_status := Some ''Running''\<rparr>)
             = no_machine_update\<lparr>mu_status := Some ''Running''\<rparr>"
    by (simp add: applyStatusValidation_def no_machine_update_def truthy_def truthy_field_def)
  have w: "write_machine (no_machine_update\<lparr>mu_status := Some ''Running''\<rparr>) now r
             = r\<lparr>mc_status := ''Running'', mc_last_updated := now\<rparr>"
    by (simp add: write_machine_def no_machine_update_def set_column_def set_nullable_def)
  show ?thesis
    using assms k
    by (simp add: updateMachine_def v w upsert_def truthy_def VALID_STATUSES_def Let_def)
qed

theorem updateMachine_merge_witness:
  "find (\<lambda>row. mc_machine_id row = ''M03'') [busy_machine] = Some busy_machine
   \<and> mc_output busy_machine = 80 \<and> mc_operator busy_machine = Some ''Arun''
   \<and> updateMachine 7 ''M03'' (no_machine_update\<lparr>mu_status := Some ''Running''\<rparr>) [busy_machine] =
       Inr (busy_machine\<lparr>mc_status := ''Running'', mc_last_updated := 7\<rparr>,
            [busy_machine\<lparr>mc_status := ''Running'', mc_last_updated := 7\<rparr>])"
proof -
  have a: "find (\<lambda>row. mc_machine_id row = ''M03'') [busy_machine] = Some busy_machine"
    by (simp add: busy_machine_def)
  have b: "mc_output busy_machine = 80" by (simp add: busy_machine_def)
  have c: "mc_operator busy_machine = Some ''Arun''" by (simp add: busy_machine_def)
  have d: "mc_machine_id busy_machine = ''M03''" by (simp add: busy_machine_def)
  show ?thesis
    using updateMachine_merge [OF a b c, of 7] a b c d by simp
qed

section \<open>The default status of the order parser\<close>

lemma shipping_parse: "parseOrderUpdate (JStr shipping_message) = Some shipping_update"
  by code_simp

lemma shipping_no_status:
  "match_i shipping_message re_order_status = None
   \<and> \<not> str_includes (toUpperCase shipping_message) ''STATUS''"
  by code_simp

lemma shipping_merge:
  "updateOrder 7 ''ORD1024'' shipping_update [held_order] = Inr (shipped_order, [shipped_order])"
  by code_simp

lemma parseOrderUpdate_status:
  assumes "parseOrderUpdate (JStr s) = Some u"
  shows "ou_status u = (case match_i s re_order_status of
            None \<Rightarrow> Some ''Active'' | Some m \<Rightarrow> map_option capitalize (grp m 1))"
  using assms
  by (auto simp: parseOrderUpdate_def when_matched_def split: if_splits option.splits bind_splits)

text \<open>
  C6 as stated does not hold: the message \<^verbatim>\<open>"ORD1024 STAGE=Shipping"\<close> does not mention STATUS
  and the order ORD1024 exists with status OnHold; the extraction output has a status,
  and the merge changes the order's status.
\<close>

theorem order_status_default_counterexample:
  "\<not> str_includes (toUpperCase shipping_message) ''STATUS''
   \<and> find (\<lambda>row. od_order_id row = ''ORD1024'') [held_order] = Some held_order
   \<and> od_status held_order = ''OnHold''
   \<and> parseOrderUpdate (JStr shipping_message) = Some shipping_update
   \<and> ou_status shipping_update \<noteq> None
   \<and> updateOrder 7 ''ORD1024'' shipping_update [held_order] = Inr (shipped_order, [shipped_order])
   \<and> od_status shipped_order \<noteq> od_status held_order"
  by (simp add: shipping_parse shipping_no_status shipping_merge)
     (simp add: held_order_def shipping_update_def shipped_order_def)

text \<open>
  C6, amended: whenever order extraction succeeds on a message in which no STATUS label
  is followed by Active, OnHold, Completed or Cancelled, the extraction output has status
  Active, whether or not the order exists; and every successful update of the store with
  that output, creating the order or merging into an existing one, leaves the order with
  status Active.
\<close>

theorem order_status_default:
  assumes "parseOrderUpdate (JStr s) = Some u"
    and "match_i s re_order_status = None"
    and "updateOrder now orderId u tbl = Inr (r, tbl')"
  shows "ou_status u = Some ''Active'' \<and> od_status r = ''Active''"
proof -
  have st: "ou_status u = Some ''Active''"
    using parseOrderUpdate_status [OF assms(1)] assms(2) by simp
  have "od_status r = ''Active''"
    using assms(3) st
    by (auto simp: updateOrder_def write_order_def set_column_def or_default_def
        split: if_splits dest!: upsert_result)
  with st show ?thesis by simp
qed

theorem order_status_default_witness:
  "parseOrderUpdate (JStr shipping_message) = Some shipping_update
   \<and> match_i shipping_message re_order_status = None
   \<and> updateOrder 7 ''ORD1024'' shipping_update [held_order] = Inr (shipped_order, [shipped_order])
   \<and> ou_status shipping_update = Some ''Active''
   \<and> od_status shipped_order = ''Active''"
  using order_status_default [OF shipping_parse conjunct1 [OF shipping_no_status] shipping_merge]
    shipping_parse shipping_no_status shipping_merge
  by simp

section \<open>The intent classifier\<close>

text \<open>
  C7: on every input the classifier of the code gives the class that the specification's
  tie-break order gives: Unknown for an empty or non-string input; else MachineUpdate when
  the trimmed text starts with M and a digit; else SafetyUpdate when the text contains
  SAFETY; else OrderUpdate when it contains ORDER, or ORD and a digit; else Unknown; all
  without regard to case.
\<close>

theorem detectIntent_classifies: "detectIntent v = spec_classify v"
  by (cases v)
     (simp_all add: detectIntent_def spec_classify_def Let_def test_machine_start test_ord_digits
        str_includes_sublist)

section \<open>Batches\<close>

text \<open>What the loops do on an array of update objects: one outcome per item, in the order
  of the items; the outcome at position \<open>i\<close> is the failure "key required" when item \<open>i\<close> has
  no key, and otherwise the success or failure of the single upsert of item \<open>i\<close> on the
  table left by the items before it; an item that fails leaves the table as it was; the
  counts of succeeded and failed outcomes add up to the number of items.  The batch of
  three order updates whose second item has no order code gives 2 succeeded and 1
  failed.\<close>

lemma batch3_value:
  "batchUpdateOrders 7 (Items (map Elem batch3)) [] =
     (Inr batch3_results, [new_order ''ORD1'' 0, new_order ''ORD3'' 5])
   \<and> successCount batch3_results = 2 \<and> failureCount batch3_results = 1"
  by code_simp

lemma orders_batch:
  "\<exists>results tbl'. batchUpdateOrders now (Items (map Elem ds)) tbl = (Inr results, tbl')
     \<and> length results = length ds
     \<and> successCount results + failureCount results = length ds
     \<and> (\<forall>i < length ds.
          let d = ds ! i;
              before = snd (orders_loop now (map Elem (take i ds)) tbl []);
              after = snd (orders_loop now (map Elem (take (Suc i) ds)) tbl [])
          in if \<not> truthy (ou_order_id d)
             then results ! i = Failed ''unknown'' Key_required \<and> after = before
             else (case updateOrder now (the (ou_order_id d)) d before of
                     Inr (updated, tbl'') \<Rightarrow> results ! i = Succeeded updated \<and> after = tbl''
                   | Inl e \<Rightarrow> results ! i = Failed (the (ou_order_id d)) e \<and> after = before))"
proof -
  let ?run = "run_items (order_step now)"
  have b: "batchUpdateOrders now (Items (map Elem ds)) tbl = (Inr (fst (?run ds tbl)), snd (?run ds tbl))"
    by (simp add: batchUpdateOrders_def orders_loop_run)
  have len: "length (fst (?run ds tbl)) = length ds"
    by (rule run_items_length)
  have item: "let d = ds ! i;
              before = snd (orders_loop now (map Elem (take i ds)) tbl []);
              after = snd (orders_loop now (map Elem (take (Suc i) ds)) tbl [])
          in if \<not> truthy (ou_order_id d)
             then fst (?run ds tbl) ! i = Failed ''unknown'' Key_required \<and> after = before
             else (case updateOrder now (the (ou_order_id d)) d before of
                     Inr (updated, tbl'') \<Rightarrow> fst (?run ds tbl) ! i = Succeeded updated \<and> after = tbl''
                   | Inl e \<Rightarrow> fst (?run ds tbl) ! i = Failed (the (ou_order_id d)) e \<and> after = before)"
    if "i < length ds" for i
    using run_items_nth [OF that, of "order_step now" tbl]
    by (auto simp: orders_loop_run order_step_def Let_def split: sum.splits)
  show ?thesis
  proof (intro exI conjI allI impI)
    show "batchUpdateOrders now (Items (map Elem ds)) tbl = (Inr (fst (?run ds tbl)), snd (?run ds tbl))"
      by (rule b)
    show "length (fst (?run ds tbl)) = length ds"
      by (rule len)
    show "successCount (fst (?run ds tbl)) + failureCount (fst (?run ds tbl)) = length ds"
      using counts_total [of "fst (?run ds tbl)"] len by simp
    fix i assume "i < length ds"
    then show "let d = ds ! i;
              before = snd (orders_loop now (map Elem (take i ds)) tbl []);
              after = snd (orders_loop now (map Elem (take (Suc i) ds)) tbl [])
          in if \<not> truthy (ou_order_id d)
             then fst (?run ds tbl) ! i = Failed ''unknown'' Key_required \<and> after = before
             else (case updateOrder now (the (ou_order_id d)) d before of
                     Inr (updated, tbl'') \<Rightarrow> fst (?run ds tbl) ! i = Succeeded updated \<and> after = tbl''
                   | Inl e \<Rightarrow> fst (?run ds tbl) ! i = Failed (the (ou_order_id d)) e \<and> after = before)"
      by (rule item)
  qed
qed

lemma machines_batch:
  "\<exists>results tbl'. batchUpdateMachines now (Items (map Elem ds)) tbl = (Inr results, tbl')
     \<and> length results = length ds
     \<and> successCount results + failureCount results = length ds
     \<and> (\<forall>i < length ds.
          let d = ds ! i;
              before = snd (machines_loop now (map Elem (take i ds)) tbl []);
              after = snd (machines_loop now (map Elem (take (Suc i) ds)) tbl [])
          in if \<not> truthy (mu_machine_id d)
             then results ! i = Failed ''unknown'' Key_required \<and> after = before
             else (case updateMachine now (the (mu_machine_id d)) d before of
                     Inr (updated, tbl'') \<Rightarrow> results ! i = Succeeded updated \<and> after = tbl''
                   | Inl e \<Rightarrow> results ! i = Failed (the (mu_machine_id d)) e \<and> after = before))"
proof -
  let ?run = "run_items (machine_step now)"
  have b: "batchUpdateMachines now (Items (map Elem ds)) tbl = (Inr (fst (?run ds tbl)), snd (?run ds tbl))"
    by (simp add: batchUpdateMachines_def machines_loop_run)
  have len: "length (fst (?run ds tbl)) = length ds"
    by (rule run_items_length)
  have item: "let d = ds ! i;
              before = snd (machines_loop now (map Elem (take i ds)) tbl []);
              after = snd (machines_loop now (map Elem (take (Suc i) ds)) tbl [])
          in if \<not> truthy (mu_machine_id d)
             then fst (?run ds tbl) ! i = Failed ''unknown'' Key_required \<and> after = before
             else (case updateMachine now (the (mu_machine_id d)) d before of
                     Inr (updated, tbl'') \<Rightarrow> fst (?run ds tbl) ! i = Succeeded updated \<and> after = tbl''
                   | Inl e \<Rightarrow> fst (?run ds tbl) ! i = Failed (the (mu_machine_id d)) e \<and> after = before)"
    if "i < length ds" for i
    using run_items_nth [OF that, of "machine_step now" tbl]
    by (auto simp: machines_loop_run machine_step_def Let_def split: sum.splits)
  show ?thesis
  proof (intro exI conjI allI impI)
    show "batchUpdateMachines now (Items (map Elem ds)) tbl = (Inr (fst (?run ds tbl)), snd (?run ds tbl))"
      by (rule b)
    show "length (fst (?run ds tbl)) = length ds"
      by (rule len)
    show "successCount (fst (?run ds tbl)) + failureCount (fst (?run ds tbl)) = length ds"
      using counts_total [of "fst (?run ds tbl)"] len by simp
    fix i assume "i < length ds"
    then show "let d = ds ! i;
              before = snd (machines_loop now (map Elem (take i ds)) tbl []);
              after = snd (machines_loop now (map Elem (take (Suc i) ds)) tbl [])
          in if \<not> truthy (mu_machine_id d)
             then fst (?run ds tbl) ! i = Failed ''unknown'' Key_required \<and> after = before
             else (case updateMachine now (the (mu_machine_id d)) d before of
                     Inr (updated, tbl'') \<Rightarrow> fst (?run ds tbl) ! i = Succeeded updated \<and> after = tbl''
                   | Inl e \<Rightarrow> fst (?run ds tbl) ! i = Failed (the (mu_machine_id d)) e \<and> after = before)"
      by (rule item)
  qed
qed

text \<open>A batch call fails as a whole exactly when its argument is not an array or the array
  has an element that is \<^verbatim>\<open>null\<close> or \<^verbatim>\<open>undefined\<close>.\<close>

lemma orders_batch_fails:
  "(\<exists>e. fst (batchUpdateOrders now arg tbl) = Inl e) =
     (arg = Not_array \<or> (\<exists>ds. arg = Items ds \<and> (Elem_null \<in> set ds \<or> Elem_undefined \<in> set ds)))"
proof (cases arg)
  case Not_array
  then show ?thesis by (simp add: batchUpdateOrders_def)
next
  case (Items ds)
  have "(\<exists>e. fst (orders_loop now ds tbl acc) = Inl e) = (Elem_null \<in> set ds \<or> Elem_undefined \<in> set ds)"
    for acc
  proof (induction ds arbitrary: tbl acc)
    case Nil
    then show ?case by simp
  next
    case (Cons d ds)
    then show ?case
      by (cases d) (auto split: sum.splits prod.splits)
  qed
  then show ?thesis using Items by (simp add: batchUpdateOrders_def)
qed

lemma machines_batch_fails:
  "(\<exists>e. fst (batchUpdateMachines now arg tbl) = Inl e) =
     (arg = Not_array \<or> (\<exists>ds. arg = Items ds \<and> (Elem_null \<in> set ds \<or> Elem_undefined \<in> set ds)))"
proof (cases arg)
  case Not_array
  then show ?thesis by (simp add: batchUpdateMachines_def)
next
  case (Items ds)
  have "(\<exists>e. fst (machines_loop now ds tbl acc) = Inl e) = (Elem_null \<in> set ds \<or> Elem_undefined \<in> set ds)"
    for acc
  proof (induction ds arbitrary: tbl acc)
    case Nil
    then show ?case by simp
  next
    case (Cons d ds)
    then show ?case
      by (cases d) (auto split: sum.splits prod.splits)
  qed
  then show ?thesis using Items by (simp add: batchUpdateMachines_def)
qed

text \<open>
  C8 says that a batch call fails as a whole only when its input is not an array, and that
  an item that cannot be processed is recorded against that item without affecting the
  others.  On the array of three elements whose second element is \<^verbatim>\<open>null\<close> the order batch
  and the machine batch fail as a whole, with no outcome list: the key of the element is
  read outside the inner \<^verbatim>\<open>try\<close>.  The first element has already been written to the table,
  the third is never processed.
\<close>

theorem batch_null_element:
  "batchUpdateOrders 7 (Items orders_with_null) [] = (Inl Type_error, [new_order ''ORD1'' 0])
   \<and> batchUpdateMachines 7 (Items machines_with_null) [] =
       (Inl Type_error, [new_machine ''M01'' ''Running''])"
  by code_simp

section \<open>Business keys in upper case\<close>

lemma key_examples:
  "parseMachineUpdate (JStr ''m03 STATUS=Idle'') =
     Some (no_machine_update\<lparr>mu_machine_id := Some ''M03'', mu_status := Some ''Idle''\<rparr>)
   \<and> parseMachineUpdate (JStr ''M03 STATUS=Idle'') =
     Some (no_machine_update\<lparr>mu_machine_id := Some ''M03'', mu_status := Some ''Idle''\<rparr>)
   \<and> parseWhatsappMessage (JStr ''m03 STATUS=Idle'') =
     Some (no_machine_update\<lparr>mu_machine_id := Some ''M03'', mu_status := Some ''Idle''\<rparr>)
   \<and> parseOrderUpdate (JStr ''ord7 qty 5'') =
     Some (no_order_update\<lparr>ou_order_id := Some ''ORD7'', ou_quantity := Some 5,
                            ou_status := Some ''Active''\<rparr>)
   \<and> first_machine_token ''m03 STATUS=Idle'' = Some ''m03''
   \<and> first_machine_token ''M03 STATUS=Idle'' = Some ''M03''
   \<and> toUpperCase ''m03'' = ''M03'' \<and> toUpperCase ''M03'' = ''M03'' \<and> toUpperCase ''ORD7'' = ''ORD7''"
  by code_simp

text \<open>
  C10: whenever a machine parser (of the message module or of the shop-floor module)
  returns an object, its input is a string that has a first token made of the letter M and
  digits, and the machine_id of the object is that token in upper case; whenever the order
  parser returns an object, its order_id is in upper case (putting it in upper case
  changes nothing).  So two messages whose first machine tokens differ only in case give
  the same machine_id.
\<close>

theorem keys_upper_case:
  "(parseMachineUpdate v = Some u \<longrightarrow>
      (\<exists>s tok. v = JStr s \<and> first_machine_token s = Some tok \<and> mu_machine_id u = Some (toUpperCase tok)))
   \<and> (parseWhatsappMessage v = Some u \<longrightarrow>
      (\<exists>s tok. v = JStr s \<and> first_machine_token s = Some tok \<and> mu_machine_id u = Some (toUpperCase tok)))
   \<and> (parseOrderUpdate v = Some ou \<longrightarrow> (\<exists>k. ou_order_id ou = Some k \<and> toUpperCase k = k))
   \<and> (parseMachineUpdate (JStr s1) = Some u1 \<and> parseMachineUpdate (JStr s2) = Some u2
       \<and> map_option toUpperCase (first_machine_token s1) = map_option toUpperCase (first_machine_token s2)
      \<longrightarrow> mu_machine_id u1 = mu_machine_id u2)"
proof (intro conjI impI)
  assume "parseMachineUpdate v = Some u"
  then show "\<exists>s tok. v = JStr s \<and> first_machine_token s = Some tok \<and> mu_machine_id u = Some (toUpperCase tok)"
    by (rule parseMachineUpdate_id)
next
  assume "parseWhatsappMessage v = Some u"
  then show "\<exists>s tok. v = JStr s \<and> first_machine_token s = Some tok \<and> mu_machine_id u = Some (toUpperCase tok)"
    by (rule parseWhatsappMessage_id)
next
  assume "parseOrderUpdate v = Some ou"
  then show "\<exists>k. ou_order_id ou = Some k \<and> toUpperCase k = k"
    by (rule parseOrderUpdate_id)
next
  assume a: "parseMachineUpdate (JStr s1) = Some u1 \<and> parseMachineUpdate (JStr s2) = Some u2
       \<and> map_option toUpperCase (first_machine_token s1) = map_option toUpperCase (first_machine_token s2)"
  from a parseMachineUpdate_id [of "JStr s1" u1] parseMachineUpdate_id [of "JStr s2" u2]
  show "mu_machine_id u1 = mu_machine_id u2" by auto
qed

theorem keys_upper_case_witness:
  "parseMachineUpdate (JStr ''m03 STATUS=Idle'') =
     Some (no_machine_update\<lparr>mu_machine_id := Some ''M03'', mu_status := Some ''Idle''\<rparr>)
   \<and> parseMachineUpdate (JStr ''M03 STATUS=Idle'') =
     Some (no_machine_update\<lparr>mu_machine_id := Some ''M03'', mu_status := Some ''Idle''\<rparr>)
   \<and> parseWhatsappMessage (JStr ''m03 STATUS=Idle'') =
     Some (no_machine_update\<lparr>mu_machine_id := Some ''M03'', mu_status := Some ''Idle''\<rparr>)
   \<and> parseOrderUpdate (JStr ''ord7 qty 5'') =
     Some (no_order_update\<lparr>ou_order_id := Some ''ORD7'', ou_quantity := Some 5,
                            ou_status := Some ''Active''\<rparr>)
   \<and> first_machine_token ''m03 STATUS=Idle'' = Some ''m03''
   \<and> first_machine_token ''M03 STATUS=Idle'' = Some ''M03''
   \<and> toUpperCase ''m03'' = toUpperCase ''M03''
   \<and> toUpperCase ''ORD7'' = ''ORD7''"
  using keys_upper_case [of "JStr ''m03 STATUS=Idle''"
      "no_machine_update\<lparr>mu_machine_id := Some ''M03'', mu_status := Some ''Idle''\<rparr>"
      "no_order_update\<lparr>ou_order_id := Some ''ORD7'', ou_quantity := Some 5, ou_status := Some ''Active''\<rparr>"
      "''m03 STATUS=Idle''"
      "no_machine_update\<lparr>mu_machine_id := Some ''M03'', mu_status := Some ''Idle''\<rparr>"
      "''M03 STATUS=Idle''"
      "no_machine_update\<lparr>mu_machine_id := Some ''M03'', mu_status := Some ''Idle''\<rparr>"]
    keys_upper_case [of "JStr ''ord7 qty 5''"
      "no_machine_update\<lparr>mu_machine_id := Some ''M03'', mu_status := Some ''Idle''\<rparr>"
      "no_order_update\<lparr>ou_order_id := Some ''ORD7'', ou_quantity := Some 5, ou_status := Some ''Active''\<rparr>"
      "''m03 STATUS=Idle''"
      "no_machine_update\<lparr>mu_machine_id := Some ''M03'', mu_status := Some ''Idle''\<rparr>"
      "''M03 STATUS=Idle''"
      "no_machine_update\<lparr>mu_machine_id := Some ''M03'', mu_status := Some ''Idle''\<rparr>"]
    key_examples
  by simp


end
